theory Spec2Isabelle
  imports Main "HOL-Library.Multiset"
begin

section \<open>Constants (constants.h)\<close>

definition MAX_PLAYER_COUNT :: nat where [simp]: "MAX_PLAYER_COUNT = 3"
definition SUIT_COUNT :: nat where [simp]: "SUIT_COUNT = 4"
definition RANK_COUNT :: nat where [simp]: "RANK_COUNT = 13"
definition DECK_SIZE :: nat where [simp]: "DECK_SIZE = 52"
definition NUMBER_OF_DECKS :: nat where [simp]: "NUMBER_OF_DECKS = 6"
definition STARTING_CARDS :: nat where [simp]: "STARTING_CARDS = 2"
definition RESHUFFLE_THRESHOLD :: nat where [simp]: "RESHUFFLE_THRESHOLD = 75"
definition BLACKJACK :: int where [simp]: "BLACKJACK = 21"
definition FACE_CARD_VALUE :: int where [simp]: "FACE_CARD_VALUE = 10"
definition ACE_HIGH :: int where [simp]: "ACE_HIGH = 11"
definition ACE_LOW :: int where [simp]: "ACE_LOW = 1"
definition DEALER_STAND :: int where [simp]: "DEALER_STAND = 17"

section \<open>Cards (Card.h)\<close>

text \<open>A card is a pair of \<^verbatim>\<open>std::string\<close>s. A default-constructed card has both strings empty.\<close>

record Card =
  rank :: string
  suit :: string

definition emptyCard :: Card where
  "emptyCard = \<lparr>rank = [], suit = []\<rparr>"

section \<open>Hands (Hand.h, Hand.cpp)\<close>

text \<open>
  \<^verbatim>\<open>struct Hand\<close> declares its own \<^verbatim>\<open>static const int MAX_HAND_SIZE = 11\<close>. Inside the
  struct and inside its member functions this member hides the global constant of the same
  name in constants.h (which is 12), so both the array length and the capacity test of
  \<^verbatim>\<open>addCardToHand\<close> use 11.

  \<^verbatim>\<open>numCards\<close> is an \<^verbatim>\<open>int\<close> in the source that is only ever set to 0 or incremented;
  it is a natural number here. The fixed-size array \<^verbatim>\<open>card\<close> is a list (the field is
  called \<open>cardArr\<close> because \<open>card\<close> is the cardinality of a set in HOL).
\<close>

definition Hand_MAX_HAND_SIZE :: nat where [simp]: "Hand_MAX_HAND_SIZE = 11"

record Hand =
  owner :: string
  numCards :: nat
  cardArr :: "Card list"

text \<open>\<^verbatim>\<open>Hand::Hand(const std::string &ownerName)\<close>: the array elements are default-constructed.\<close>

definition newHand :: "string \<Rightarrow> Hand" where
  "newHand ownerName =
     \<lparr>owner = ownerName, numCards = 0, cardArr = replicate Hand_MAX_HAND_SIZE emptyCard\<rparr>"

definition addCardToHand :: "Card \<Rightarrow> Hand \<Rightarrow> Hand" where
  "addCardToHand c h =
     (if numCards h < Hand_MAX_HAND_SIZE - 1 \<and> rank c \<noteq> [] \<and> suit c \<noteq> []
      then h\<lparr>cardArr := (cardArr h)[numCards h := c], numCards := numCards h + 1\<rparr>
      else h)"

text \<open>The loop of \<^verbatim>\<open>adjustScoreForAces\<close>; it stops because \<open>aceCount\<close> decreases.\<close>

function adjustScoreForAces :: "int \<Rightarrow> int \<Rightarrow> int" where
  "adjustScoreForAces score aceCount =
     (if score > BLACKJACK \<and> aceCount > 0
      then adjustScoreForAces (score - (ACE_HIGH - ACE_LOW)) (aceCount - 1)
      else score)"
  by pat_completeness auto
termination
  by (relation "measure (\<lambda>(score, aceCount). nat aceCount)") auto

declare adjustScoreForAces.simps [simp del]

text \<open>
  The table \<^verbatim>\<open>cardValues\<close> of \<^verbatim>\<open>evaluateHandScore\<close>. \<^verbatim>\<open>std::map::operator[]\<close> yields a
  value-initialised entry, 0, for a key that is not in the table.
\<close>

definition cardValues :: "string \<rightharpoonup> int" where
  "cardValues = map_of
     [(''A'', ACE_HIGH), (''K'', FACE_CARD_VALUE), (''Q'', FACE_CARD_VALUE),
      (''J'', FACE_CARD_VALUE), (''T'', 10), (''9'', 9), (''8'', 8), (''7'', 7),
      (''6'', 6), (''5'', 5), (''4'', 4), (''3'', 3), (''2'', 2)]"

definition cardValue :: "string \<Rightarrow> int" where
  "cardValue r = (case cardValues r of None \<Rightarrow> 0 | Some v \<Rightarrow> v)"

text \<open>The range-based loop of \<^verbatim>\<open>evaluateHandScore\<close> runs over the whole array.\<close>

fun scoreLoop :: "Card list \<Rightarrow> int \<Rightarrow> int \<Rightarrow> int \<times> int" where
  "scoreLoop [] score aceCount = (score, aceCount)"
| "scoreLoop (singleCard # rest) score aceCount =
     scoreLoop rest (score + cardValue (rank singleCard))
       (if rank singleCard = ''A'' then aceCount + 1 else aceCount)"

definition evaluateHandScore :: "Hand \<Rightarrow> int" where
  "evaluateHandScore h =
     (case scoreLoop (cardArr h) 0 0 of (score, aceCount) \<Rightarrow> adjustScoreForAces score aceCount)"

section \<open>The shoe (Shoe.h, Shoe.cpp)\<close>

text \<open>
  \<^verbatim>\<open>rand()\<close> reads and advances process-wide state. Here the results of the calls still to
  come are a sequence: \<open>r 0\<close> is what the next call returns, \<open>r 1\<close> the one after, and a
  function that made \<open>k\<close> calls hands back the sequence shifted by \<open>k\<close>.
\<close>

type_synonym rng = "nat \<Rightarrow> nat"

text \<open>
  \<^verbatim>\<open>currentCard\<close> is an \<^verbatim>\<open>int\<close> that the source only sets to 0 or increments; it is a
  natural number here. \<^verbatim>\<open>cards\<close> is an array of \<open>DECK_SIZE * NUMBER_OF_DECKS = 312\<close> cards.
\<close>

record Shoe =
  cards :: "Card list"
  currentCard :: nat

text \<open>The suit symbols are the UTF-8 bytes of the four characters in the source.\<close>

definition spadeSymbol :: string where
  "spadeSymbol = [CHR 0xE2, CHR 0x99, CHR 0xA0]"

definition heartSymbol :: string where
  "heartSymbol = [CHR 0xE2, CHR 0x99, CHR 0xA5]"

definition clubSymbol :: string where
  "clubSymbol = [CHR 0xE2, CHR 0x99, CHR 0xA3]"

definition diamondSymbol :: string where
  "diamondSymbol = [CHR 0xE2, CHR 0x99, CHR 0xA6]"

definition convertCardToSymbol :: "Card \<Rightarrow> Card" where
  "convertCardToSymbol c =
     (if suit c = ''S'' then c\<lparr>suit := spadeSymbol\<rparr>
      else if suit c = ''H'' then c\<lparr>suit := heartSymbol\<rparr>
      else if suit c = ''C'' then c\<lparr>suit := clubSymbol\<rparr>
      else if suit c = ''D'' then c\<lparr>suit := diamondSymbol\<rparr>
      else c)"

definition suits :: "char list" where
  "suits = [CHR ''C'', CHR ''D'', CHR ''H'', CHR ''S'']"

definition cardRanks :: "string list" where
  "cardRanks = [''A'', ''K'', ''Q'', ''J'', ''T'', ''9'', ''8'', ''7'', ''6'', ''5'', ''4'', ''3'', ''2'']"

text \<open>
  The three nested loops of \<^verbatim>\<open>initializeDecks\<close> write \<^verbatim>\<open>cards[count++]\<close> for
  \<open>count = 0, \<dots>, 311\<close>, so they overwrite the whole array in this order.
\<close>

definition initializeDecks :: "Shoe \<Rightarrow> Shoe" where
  "initializeDecks s = s\<lparr>cards :=
     [convertCardToSymbol \<lparr>rank = cardRanks ! rnk, suit = [suits ! st]\<rparr>.
        deck \<leftarrow> [0..<NUMBER_OF_DECKS], st \<leftarrow> [0..<SUIT_COUNT], rnk \<leftarrow> [0..<RANK_COUNT]]\<rparr>"

text \<open>\<^verbatim>\<open>std::swap(cards[i], cards[j])\<close>.\<close>

definition swapCards :: "nat \<Rightarrow> nat \<Rightarrow> Card list \<Rightarrow> Card list" where
  "swapCards i j cs = cs[i := cs ! j, j := cs ! i]"

text \<open>
  \<^verbatim>\<open>shuffleDecks\<close>: one pass over the array, the \<open>i\<close>-th step swapping slot \<open>i\<close> with the slot
  \<^verbatim>\<open>rand() % 312\<close>. It does not touch \<^verbatim>\<open>currentCard\<close>. (The message and the pause are not
  modelled.)
\<close>

definition shuffleDecks :: "rng \<Rightarrow> Shoe \<Rightarrow> Shoe \<times> rng" where
  "shuffleDecks r s =
     (s\<lparr>cards := fold (\<lambda>i cs. swapCards i (r i mod (DECK_SIZE * NUMBER_OF_DECKS)) cs)
                    [0..<DECK_SIZE * NUMBER_OF_DECKS] (cards s)\<rparr>,
      \<lambda>n. r (n + DECK_SIZE * NUMBER_OF_DECKS))"

text \<open>\<^verbatim>\<open>Shoe::Shoe()\<close>.\<close>

definition newShoe :: "rng \<Rightarrow> Shoe \<times> rng" where
  "newShoe r =
     shuffleDecks r
       (initializeDecks \<lparr>cards = replicate (DECK_SIZE * NUMBER_OF_DECKS) emptyCard, currentCard = 0\<rparr>)"

text \<open>
  \<^verbatim>\<open>drawCardFromShoe\<close> has three return statements. The tag says which one was taken;
  \<open>NoMoreCards\<close> is the branch that prints "ERROR: No more cards to deal, reshuffling.".
  \<^verbatim>\<open>return cards[currentCard++]\<close> reads at the old cursor and then advances it.
\<close>

datatype drawBranch = Reshuffled | NextCard | NoMoreCards

definition drawCardFromShoe :: "rng \<Rightarrow> Shoe \<Rightarrow> drawBranch \<times> Card \<times> Shoe \<times> rng" where
  "drawCardFromShoe r s =
     (if currentCard s \<ge> DECK_SIZE * NUMBER_OF_DECKS - RESHUFFLE_THRESHOLD then
        (case shuffleDecks r s of (s1, r1) \<Rightarrow>
           let s2 = s1\<lparr>currentCard := 0\<rparr>
           in (Reshuffled, cards s2 ! currentCard s2, s2\<lparr>currentCard := currentCard s2 + 1\<rparr>, r1))
      else if currentCard s < DECK_SIZE * NUMBER_OF_DECKS then
        (NextCard, cards s ! currentCard s, s\<lparr>currentCard := currentCard s + 1\<rparr>, r)
      else
        (case shuffleDecks r s of (s1, r1) \<Rightarrow>
           let s2 = s1\<lparr>currentCard := 0\<rparr>
           in (NoMoreCards, cards s2 ! currentCard s2, s2\<lparr>currentCard := currentCard s2 + 1\<rparr>, r1)))"

text \<open>\<open>n\<close> draws in a row, with the branch each of them took.\<close>

fun drawMany :: "nat \<Rightarrow> rng \<Rightarrow> Shoe \<Rightarrow> drawBranch list \<times> Shoe \<times> rng" where
  "drawMany 0 r s = ([], s, r)"
| "drawMany (Suc n) r s =
     (case drawCardFromShoe r s of (b, c, s1, r1) \<Rightarrow>
        (case drawMany n r1 s1 of (bs, s2, r2) \<Rightarrow> (b # bs, s2, r2)))"

section \<open>Statistics (GameStats.h, GameStats.cpp)\<close>

text \<open>
  The counters are \<^verbatim>\<open>int\<close>s that are only incremented, one by one; they are integers here
  (a counter would need more than \<open>2 ^ 31\<close> increments to overflow). The five vectors have one
  entry per player, and every index the round uses on them is a player's index.
\<close>

record GameStats =
  playerWins :: "int list"
  playerLosses :: "int list"
  playerTies :: "int list"
  playerBlackjacks :: "int list"
  playerBlackjack :: "bool list"
  dealerBlackjack :: bool
  dealerWins :: int
  dealerBlackjacks :: int
  totalRounds :: int

text \<open>\<^verbatim>\<open>GameStats::GameStats(int numPlayers)\<close>: every vector has \<open>numPlayers\<close> zeroed entries.\<close>

definition newGameStats :: "nat \<Rightarrow> GameStats" where
  "newGameStats numPlayers =
     \<lparr>playerWins = replicate numPlayers 0, playerLosses = replicate numPlayers 0,
      playerTies = replicate numPlayers 0, playerBlackjacks = replicate numPlayers 0,
      playerBlackjack = replicate numPlayers False, dealerBlackjack = False,
      dealerWins = 0, dealerBlackjacks = 0, totalRounds = 0\<rparr>"

text \<open>\<^verbatim>\<open>v[i]++\<close> on a vector of counters.\<close>

definition incr :: "nat \<Rightarrow> int list \<Rightarrow> int list" where
  "incr i v = v[i := v ! i + 1]"

section \<open>The round (GameFunctions.cpp)\<close>

definition isBusted :: "Hand \<Rightarrow> bool" where
  "isBusted hand \<longleftrightarrow> evaluateHandScore hand > BLACKJACK"

definition isBlackjack :: "Hand \<Rightarrow> bool" where
  "isBlackjack hand \<longleftrightarrow> numCards hand = 2 \<and> evaluateHandScore hand = BLACKJACK"

definition compareHands :: "Hand \<Rightarrow> Hand \<Rightarrow> GameStats \<Rightarrow> nat \<Rightarrow> GameStats" where
  "compareHands playerHand dealerHand stats playerIndex =
     (let playerScore = evaluateHandScore playerHand;
          dealerScore = evaluateHandScore dealerHand
      in if isBusted playerHand then
           stats\<lparr>playerLosses := incr playerIndex (playerLosses stats)\<rparr>
         else if isBlackjack playerHand \<and> \<not> isBlackjack dealerHand then
           stats\<lparr>playerWins := incr playerIndex (playerWins stats),
                 playerBlackjacks := incr playerIndex (playerBlackjacks stats)\<rparr>
         else if dealerScore > playerScore \<and> \<not> isBusted dealerHand then
           stats\<lparr>playerLosses := incr playerIndex (playerLosses stats),
                 dealerWins := dealerWins stats + 1\<rparr>
         else if playerScore > dealerScore then
           stats\<lparr>playerWins := incr playerIndex (playerWins stats)\<rparr>
         else if playerScore = dealerScore then
           stats\<lparr>playerTies := incr playerIndex (playerTies stats)\<rparr>
         else stats)"

definition shouldEndRoundEarly :: "GameStats \<Rightarrow> bool" where
  "shouldEndRoundEarly stats =
     (if dealerBlackjack stats
      then (if list_ex (\<lambda>playerHasBlackjack. playerHasBlackjack) (playerBlackjack stats)
            then False else True)
      else False)"

text \<open>\<^verbatim>\<open>std::to_string\<close> on a non-negative number: its decimal digits.\<close>

function to_string :: "nat \<Rightarrow> string" where
  "to_string n =
     (if n < 10 then [char_of (48 + n)]
      else to_string (n div 10) @ [char_of (48 + n mod 10)])"
  by pat_completeness auto
termination
  by (relation "measure (\<lambda>n. n)") auto

declare to_string.simps [simp del]

definition initializeGameHands :: "nat \<Rightarrow> Hand list" where
  "initializeGameHands numPlayers =
     map (\<lambda>i. newHand (''Player '' @ to_string (i + 1))) [0..<numPlayers] @ [newHand ''Dealer'']"

text \<open>\<^verbatim>\<open>drawFromShoe\<close> changes the hand and the deck through its references.\<close>

definition drawFromShoe :: "Hand \<Rightarrow> Shoe \<Rightarrow> rng \<Rightarrow> Hand \<times> Shoe \<times> rng" where
  "drawFromShoe hand deck r =
     (case drawCardFromShoe r deck of (b, drawnCard, deck1, r1) \<Rightarrow>
        (if rank drawnCard \<noteq> [] \<and> suit drawnCard \<noteq> []
         then addCardToHand drawnCard hand else hand, deck1, r1))"

text \<open>
  \<^verbatim>\<open>dealCards\<close>: \<open>STARTING_CARDS\<close> passes over the hands, each giving one card to every hand in
  the order of the vector (the players, then the dealer).
\<close>

definition dealOne :: "nat \<Rightarrow> Hand list \<times> Shoe \<times> rng \<Rightarrow> Hand list \<times> Shoe \<times> rng" where
  "dealOne i = (\<lambda>(hands, deck, r).
     case drawFromShoe (hands ! i) deck r of (hand1, deck1, r1) \<Rightarrow> (hands[i := hand1], deck1, r1))"

definition dealCards :: "Hand list \<Rightarrow> Shoe \<Rightarrow> rng \<Rightarrow> Hand list \<times> Shoe \<times> rng" where
  "dealCards hands deck r =
     fold (\<lambda>round st. fold dealOne [0..<length hands] st) [0..<STARTING_CARDS] (hands, deck, r)"

text \<open>
  \<^verbatim>\<open>checkBlackjack\<close>. Both loops run over \<open>i < hands.size() - 1\<close>, the players; the vector of
  hands always ends with the dealer's hand, so it is never empty. \<open>naturalStep\<close> is the body of
  the loop taken when the dealer has a blackjack (it also carries the local flag
  \<^verbatim>\<open>anyPlayerHasBlackjack\<close>), \<open>flagStep\<close> the body of the other loop.
\<close>

definition naturalStep :: "Hand list \<Rightarrow> nat \<Rightarrow> GameStats \<times> bool \<Rightarrow> GameStats \<times> bool" where
  "naturalStep hands i = (\<lambda>(st, anyPlayerHasBlackjack).
     if isBlackjack (hands ! i)
     then (st\<lparr>playerBlackjack := (playerBlackjack st)[i := True],
              playerTies := incr i (playerTies st)\<rparr>, True)
     else (st\<lparr>playerBlackjack := (playerBlackjack st)[i := False],
              playerLosses := incr i (playerLosses st)\<rparr>, anyPlayerHasBlackjack))"

definition flagStep :: "Hand list \<Rightarrow> nat \<Rightarrow> GameStats \<Rightarrow> GameStats" where
  "flagStep hands i st = st\<lparr>playerBlackjack := (playerBlackjack st)[i := isBlackjack (hands ! i)]\<rparr>"

definition checkBlackjack :: "Hand list \<Rightarrow> GameStats \<Rightarrow> nat \<Rightarrow> GameStats" where
  "checkBlackjack hands stats numPlayers =
     (let stats1 = stats\<lparr>dealerBlackjack := isBlackjack (last hands)\<rparr>
      in if dealerBlackjack stats1 then
           (case fold (naturalStep hands) [0..<length hands - 1] (stats1, False)
            of (stats2, anyPlayerHasBlackjack) \<Rightarrow>
              if \<not> anyPlayerHasBlackjack then stats2\<lparr>dealerWins := dealerWins stats2 + 1\<rparr>
              else stats2)
         else fold (flagStep hands) [0..<length hands - 1] stats1)"

text \<open>
  The player's answers. \<^verbatim>\<open>getUserDecision\<close> asks again until it reads "hit" or "stand", so
  what reaches \<^verbatim>\<open>hitOrStand\<close> is a sequence of valid answers; when the input has no further
  answer, \<^verbatim>\<open>getUserDecision\<close> never returns, which is the result \<open>None\<close>.
\<close>

datatype decision = Hit | Stand

fun hitOrStand :: "decision list \<Rightarrow> Hand \<Rightarrow> Shoe \<Rightarrow> rng \<Rightarrow> (decision list \<times> Hand \<times> Shoe \<times> rng) option" where
  "hitOrStand [] playerHand deck r = None"
| "hitOrStand (Stand # ds) playerHand deck r = Some (ds, playerHand, deck, r)"
| "hitOrStand (Hit # ds) playerHand deck r =
     (case drawCardFromShoe r deck of (b, c, deck1, r1) \<Rightarrow>
        let hand1 = addCardToHand c playerHand
        in if evaluateHandScore hand1 > BLACKJACK then Some (ds, hand1, deck1, r1)
           else hitOrStand ds hand1 deck1 r1)"

text \<open>
  The loop over the hands in \<^verbatim>\<open>playRound\<close>: every hand whose owner is not "Dealer" and that is
  not a blackjack gets one call of \<^verbatim>\<open>hitOrStand\<close> (which always returns false).
\<close>

fun playerTurns :: "nat list \<Rightarrow> decision list \<Rightarrow> Hand list \<Rightarrow> Shoe \<Rightarrow> rng \<Rightarrow>
    (decision list \<times> Hand list \<times> Shoe \<times> rng) option" where
  "playerTurns [] ds hands deck r = Some (ds, hands, deck, r)"
| "playerTurns (i # rest) ds hands deck r =
     (if owner (hands ! i) \<noteq> ''Dealer'' \<and> \<not> isBlackjack (hands ! i) then
        (case hitOrStand ds (hands ! i) deck r of
           None \<Rightarrow> None
         | Some (ds1, hand1, deck1, r1) \<Rightarrow> playerTurns rest ds1 (hands[i := hand1]) deck1 r1)
      else playerTurns rest ds hands deck r)"

text \<open>The dealer's loop in \<^verbatim>\<open>playRound\<close>. \<open>None\<close>: the loop never exits.\<close>

partial_function (option) dealerTurn :: "Hand \<Rightarrow> Shoe \<Rightarrow> rng \<Rightarrow> (Hand \<times> Shoe \<times> rng) option" where
  "dealerTurn dealerHand deck r =
     (if evaluateHandScore dealerHand < DEALER_STAND then
        (case drawCardFromShoe r deck of (b, c, deck1, r1) \<Rightarrow>
           dealerTurn (addCardToHand c dealerHand) deck1 r1)
      else Some (dealerHand, deck, r))"

declare dealerTurn.simps [code]

text \<open>
  \<^verbatim>\<open>determineWinner\<close>; it returns the constant 0, and what it does is the change to the
  statistics. \<open>settleStep\<close> is the body of its loop over the players, \<open>dealerBustedStep\<close> the
  body of the loop that follows when the dealer is bust.
\<close>

definition settleStep :: "Hand list \<Rightarrow> nat \<Rightarrow> GameStats \<Rightarrow> GameStats" where
  "settleStep hands i st =
     (let dealerHand = last hands
      in if playerBlackjack st ! i then
           (if \<not> isBlackjack dealerHand
            then st\<lparr>playerWins := incr i (playerWins st),
                    playerBlackjacks := incr i (playerBlackjacks st)\<rparr>
            else st\<lparr>playerTies := incr i (playerTies st)\<rparr>)
         else compareHands (hands ! i) dealerHand st i)"

definition dealerBustedStep :: "Hand list \<Rightarrow> nat \<Rightarrow> GameStats \<Rightarrow> GameStats" where
  "dealerBustedStep hands i st =
     (if \<not> isBusted (hands ! i) \<and> \<not> playerBlackjack st ! i
      then st\<lparr>playerWins := incr i (playerWins st)\<rparr> else st)"

definition determineWinner :: "Hand list \<Rightarrow> GameStats \<Rightarrow> nat \<Rightarrow> GameStats" where
  "determineWinner hands stats numPlayers =
     (let dealerHand = last hands;
          dealerBusted = isBusted dealerHand;
          stats1 =
            (if isBlackjack dealerHand then
               (let st = stats\<lparr>dealerBlackjacks := dealerBlackjacks stats + 1\<rparr>;
                    allPlayersNoBlackjack = \<not> list_ex (\<lambda>b. b) (playerBlackjack st)
                in if allPlayersNoBlackjack \<and> \<not> dealerBusted
                   then st\<lparr>dealerWins := dealerWins st + 1\<rparr> else st)
             else stats);
          stats2 = fold (settleStep hands) [0..<length hands - 1] stats1;
          stats3 =
            (if dealerBusted
             then fold (dealerBustedStep hands) [0..<length hands - 1]
                    (stats2\<lparr>dealerWins := dealerWins stats2 + 1\<rparr>)
             else stats2)
      in stats3\<lparr>totalRounds := totalRounds stats3 + 1\<rparr>)"

definition collectCards :: "Hand list \<Rightarrow> Shoe \<Rightarrow> rng \<Rightarrow> Hand list \<times> Shoe \<times> rng" where
  "collectCards hands deck r =
     (case shuffleDecks r (deck\<lparr>currentCard := 0\<rparr>) of (deck1, r1) \<Rightarrow>
        (map (\<lambda>hand. hand\<lparr>numCards := 0\<rparr>) hands, deck1, r1))"

text \<open>
  \<^verbatim>\<open>playRound\<close> in two parts. \<open>playRoundTurns\<close> is the function up to the end of the
  \<^verbatim>\<open>if (!endRoundEarly)\<close> block: the deal, the blackjack check and, unless the round ends
  early, the players' turns and the dealer's turn. \<open>playRound\<close> then settles and collects the
  cards. The vector of hands is local to \<^verbatim>\<open>playRound\<close>; the deck and the statistics are the
  caller's.
\<close>

definition playRoundTurns :: "decision list \<Rightarrow> Shoe \<Rightarrow> rng \<Rightarrow> nat \<Rightarrow> GameStats \<Rightarrow>
    (decision list \<times> Hand list \<times> Shoe \<times> rng \<times> GameStats) option" where
  "playRoundTurns ds deck r numPlayers stats =
     (case dealCards (initializeGameHands numPlayers) deck r of (hands, deck1, r1) \<Rightarrow>
        let stats1 = checkBlackjack hands stats numPlayers;
            endRoundEarly = shouldEndRoundEarly stats1
        in if \<not> endRoundEarly then
             (case playerTurns [0..<length hands] ds hands deck1 r1 of
                None \<Rightarrow> None
              | Some (ds2, hands2, deck2, r2) \<Rightarrow>
                  (case dealerTurn (last hands2) deck2 r2 of
                     None \<Rightarrow> None
                   | Some (dealerHand, deck3, r3) \<Rightarrow>
                       Some (ds2, hands2[length hands2 - 1 := dealerHand], deck3, r3, stats1)))
           else Some (ds, hands, deck1, r1, stats1))"

definition playRound :: "decision list \<Rightarrow> Shoe \<Rightarrow> rng \<Rightarrow> nat \<Rightarrow> GameStats \<Rightarrow>
    (decision list \<times> Shoe \<times> rng \<times> GameStats) option" where
  "playRound ds deck r numPlayers stats =
     (case playRoundTurns ds deck r numPlayers stats of
        None \<Rightarrow> None
      | Some (ds1, hands, deck1, r1, stats1) \<Rightarrow>
          let stats2 = determineWinner hands stats1 numPlayers
          in (case collectCards hands deck1 r1 of (hands1, deck2, r2) \<Rightarrow>
                Some (ds1, deck2, r2, stats2)))"

section \<open>The scoring rule in the words of the specification\<close>

text \<open>
  Per-rank values: number cards at face value, T, J, Q and K as 10, an Ace as 11 at first.
  Then, while the total exceeds 21 and some Ace is still counted as 11, one such Ace is
  counted as 1 instead. The cards are kept as the list of the values they are counted with;
  only an Ace has the value 11.
\<close>

definition numberCards :: "(string \<times> int) list" where
  "numberCards = zip [''2'', ''3'', ''4'', ''5'', ''6'', ''7'', ''8'', ''9''] [2, 3, 4, 5, 6, 7, 8, 9]"

definition rankPoints :: "string \<Rightarrow> int" where
  "rankPoints r =
     (if r = ''A'' then 11
      else if r \<in> set [''T'', ''J'', ''Q'', ''K''] then 10
      else (case map_of numberCards r of Some v \<Rightarrow> v | None \<Rightarrow> 0))"

fun downgradeAce :: "int list \<Rightarrow> int list" where
  "downgradeAce [] = []"
| "downgradeAce (v # vs) = (if v = 11 then 1 # vs else v # downgradeAce vs)"

function settleAces :: "int list \<Rightarrow> int list" where
  "settleAces vs =
     (if sum_list vs > 21 \<and> 11 \<in> set vs then settleAces (downgradeAce vs) else vs)"
  by pat_completeness auto
termination
proof (relation "measure (\<lambda>vs. count_list vs 11)")
  show "wf (measure (\<lambda>vs. count_list vs (11::int)))" by simp
next
  fix vs :: "int list"
  assume "21 < sum_list vs \<and> 11 \<in> set vs"
  then have "11 \<in> set vs" by simp
  then have "count_list (downgradeAce vs) 11 < count_list vs 11"
    by (induction vs) auto
  then show "(downgradeAce vs, vs) \<in> measure (\<lambda>vs. count_list vs 11)" by simp
qed

declare settleAces.simps [simp del]

definition referenceScore :: "Card list \<Rightarrow> int" where
  "referenceScore cs = sum_list (settleAces (map (\<lambda>c. rankPoints (rank c)) cs))"

section \<open>Hands built through the interface\<close>

text \<open>
  What holds of every hand that starts as a new hand and only changes through
  \<^verbatim>\<open>addCardToHand\<close>: the array has its 11 slots, at most 10 of them are in use, and the
  slots from \<open>numCards\<close> on still hold default-constructed cards.
\<close>

definition hand_inv :: "Hand \<Rightarrow> bool" where
  "hand_inv h \<longleftrightarrow> length (cardArr h) = 11 \<and> numCards h \<le> 10 \<and>
     drop (numCards h) (cardArr h) = replicate (11 - numCards h) emptyCard"

text \<open>What \<^verbatim>\<open>drawFromShoe\<close> does to the hand, given the card that was drawn.\<close>

definition takeCard :: "Card \<Rightarrow> Hand \<Rightarrow> Hand" where
  "takeCard c hand = (if rank c \<noteq> [] \<and> suit c \<noteq> [] then addCardToHand c hand else hand)"

section \<open>Concrete cards and hands\<close>

definition aceOfClubs :: Card where
  "aceOfClubs = \<lparr>rank = ''A'', suit = clubSymbol\<rparr>"

definition aceOfDiamonds :: Card where
  "aceOfDiamonds = \<lparr>rank = ''A'', suit = diamondSymbol\<rparr>"

definition aceOfHearts :: Card where
  "aceOfHearts = \<lparr>rank = ''A'', suit = heartSymbol\<rparr>"

definition aceOfSpades :: Card where
  "aceOfSpades = \<lparr>rank = ''A'', suit = spadeSymbol\<rparr>"

definition twoOfClubs :: Card where
  "twoOfClubs = \<lparr>rank = ''2'', suit = clubSymbol\<rparr>"

definition twoOfDiamonds :: Card where
  "twoOfDiamonds = \<lparr>rank = ''2'', suit = diamondSymbol\<rparr>"

definition twoOfHearts :: Card where
  "twoOfHearts = \<lparr>rank = ''2'', suit = heartSymbol\<rparr>"

definition twoOfSpades :: Card where
  "twoOfSpades = \<lparr>rank = ''2'', suit = spadeSymbol\<rparr>"

definition threeOfClubs :: Card where
  "threeOfClubs = \<lparr>rank = ''3'', suit = clubSymbol\<rparr>"

definition threeOfDiamonds :: Card where
  "threeOfDiamonds = \<lparr>rank = ''3'', suit = diamondSymbol\<rparr>"

definition threeOfHearts :: Card where
  "threeOfHearts = \<lparr>rank = ''3'', suit = heartSymbol\<rparr>"

definition nineOfClubs :: Card where
  "nineOfClubs = \<lparr>rank = ''9'', suit = clubSymbol\<rparr>"

definition tenOfClubs :: Card where
  "tenOfClubs = \<lparr>rank = ''T'', suit = clubSymbol\<rparr>"

definition jackOfClubs :: Card where
  "jackOfClubs = \<lparr>rank = ''J'', suit = clubSymbol\<rparr>"

definition queenOfClubs :: Card where
  "queenOfClubs = \<lparr>rank = ''Q'', suit = clubSymbol\<rparr>"

definition kingOfClubs :: Card where
  "kingOfClubs = \<lparr>rank = ''K'', suit = clubSymbol\<rparr>"

definition eightOfClubs :: Card where
  "eightOfClubs = \<lparr>rank = ''8'', suit = clubSymbol\<rparr>"

definition kingOfSpades :: Card where
  "kingOfSpades = \<lparr>rank = ''K'', suit = spadeSymbol\<rparr>"

text \<open>The first ten cards of the hand A, A, A, A, 2, 2, 2, 2, 3, 3, 3 named in Hand.h.\<close>

definition tenCardHand :: Hand where
  "tenCardHand = fold addCardToHand
     [aceOfClubs, aceOfDiamonds, aceOfHearts, aceOfSpades, twoOfClubs, twoOfDiamonds,
      twoOfHearts, twoOfSpades, threeOfClubs, threeOfDiamonds] (newHand ''Player 1'')"

section \<open>Concrete shoes\<close>

text \<open>
  Sequences of \<^verbatim>\<open>rand()\<close> results. With \<open>identityRng\<close> every step of a shuffle swaps a slot
  with itself; \<open>swapFirstTwoRng\<close> differs from it in its first result only.
\<close>

definition identityRng :: rng where
  "identityRng i = i"

definition swapFirstTwoRng :: rng where
  "swapFirstTwoRng i = (if i = 0 then 1 else i)"

text \<open>
  The shoe as \<^verbatim>\<open>initializeDecks\<close> leaves it, and the shoe after the first \<open>k\<close> steps of a
  shuffle. A sequence of \<^verbatim>\<open>rand()\<close> results that lets all later steps swap a slot with
  itself makes the constructor return that shoe.
\<close>

definition initialShoe :: Shoe where
  "initialShoe =
     initializeDecks \<lparr>cards = replicate (DECK_SIZE * NUMBER_OF_DECKS) emptyCard, currentCard = 0\<rparr>"

definition swapsApplied :: "rng \<Rightarrow> nat \<Rightarrow> Shoe" where
  "swapsApplied r k = initialShoe\<lparr>cards :=
      fold (\<lambda>i cs. swapCards i (r i mod (DECK_SIZE * NUMBER_OF_DECKS)) cs) [0..<k] (cards initialShoe)\<rparr>"

definition shoeAfterFiveDraws :: Shoe where
  "shoeAfterFiveDraws = fst (snd (drawMany 5 (snd (newShoe identityRng)) (fst (newShoe identityRng))))"

section \<open>Concrete rounds\<close>

text \<open>
  One player; the constructor's shuffle swaps the first two cards of the shoe, so the deal is
  K, Q to the player and A, J to the dealer.
\<close>

definition kingQueenHand :: Hand where
  "kingQueenHand = fold addCardToHand [kingOfClubs, queenOfClubs] (newHand ''Player 1'')"

definition aceJackDealerHand :: Hand where
  "aceJackDealerHand = fold addCardToHand [aceOfClubs, jackOfClubs] (newHand ''Dealer'')"

text \<open>
  One player; every step of the constructor's shuffle swaps a slot with itself, so the deal is
  A, Q to the player and K, J to the dealer.
\<close>

definition aceQueenHand :: Hand where
  "aceQueenHand = fold addCardToHand [aceOfClubs, queenOfClubs] (newHand ''Player 1'')"

definition kingJackDealerHand :: Hand where
  "kingJackDealerHand = fold addCardToHand [kingOfClubs, jackOfClubs] (newHand ''Dealer'')"

text \<open>
  One player; the constructor's shuffle brings six twos and four Aces to the front of the
  shoe, which then starts A, 2, 9, 2, 2, 2, 2, 2, A, A, A, A. The deal is A, 9 to the player
  and 2, 2 to the dealer, and the next eight cards are 2, 2, 2, 2, A, A, A, A.
\<close>

definition lowCardsRng :: rng where
  "lowCardsRng i =
     (if i = 1 then 12 else if i = 2 then 5 else if i = 3 then 25 else if i = 4 then 38
      else if i = 5 then 51 else if i = 6 then 64 else if i = 7 then 77 else if i = 8 then 13
      else if i = 9 then 26 else if i = 10 then 39 else if i = 11 then 52 else i)"

definition aceNineHand :: Hand where
  "aceNineHand = fold addCardToHand [aceOfClubs, nineOfClubs] (newHand ''Player 1'')"

definition twoTwoDealerHand :: Hand where
  "twoTwoDealerHand = fold addCardToHand [twoOfClubs, twoOfDiamonds] (newHand ''Dealer'')"

definition nextEightCards :: "Card list" where
  "nextEightCards =
     [twoOfHearts, twoOfSpades, twoOfClubs, twoOfDiamonds,
      aceOfDiamonds, aceOfHearts, aceOfSpades, aceOfClubs]"

text \<open>
  Two players; the constructor's shuffle swaps the sixth card with the Ace of diamonds, so the
  shoe starts A, K, Q, J, T, A, 8. The deal is A, J to the first player, K, T to the second
  and Q, A to the dealer.
\<close>

definition twoNaturalsRng :: rng where
  "twoNaturalsRng i = (if i = 5 then 13 else i)"

definition aceJackHand :: Hand where
  "aceJackHand = fold addCardToHand [aceOfClubs, jackOfClubs] (newHand ''Player 1'')"

definition kingTenHand :: Hand where
  "kingTenHand = fold addCardToHand [kingOfClubs, tenOfClubs] (newHand ''Player 2'')"

definition queenAceDealerHand :: Hand where
  "queenAceDealerHand = fold addCardToHand [queenOfClubs, aceOfDiamonds] (newHand ''Dealer'')"





section \<open>Scoring\<close>

lemma scoreLoop_acc:
  "scoreLoop cs s a =
     (s + sum_list (map (\<lambda>c. cardValue (rank c)) cs),
      a + int (length (filter (\<lambda>c. rank c = ''A'') cs)))"
  by (induction cs arbitrary: s a) auto

lemma cardValue_empty: "cardValue [] = 0"
  by (simp add: cardValue_def cardValues_def)

lemma rankPoints_cardValue: "rankPoints r = cardValue r"
  by (simp add: rankPoints_def cardValue_def cardValues_def numberCards_def)

lemma rankPoints_ace: "rankPoints r = 11 \<longleftrightarrow> r = ''A''"
  by (simp add: rankPoints_def numberCards_def)

lemma sum_downgradeAce: "11 \<in> set vs \<Longrightarrow> sum_list (downgradeAce vs) = sum_list vs - 10"
  by (induction vs) auto

lemma count_downgradeAce:
  "11 \<in> set vs \<Longrightarrow> int (count_list (downgradeAce vs) 11) = int (count_list vs 11) - 1"
  by (induction vs) auto

text \<open>
  Counting Aces down one at a time on the list of values is the loop of
  \<^verbatim>\<open>adjustScoreForAces\<close> on the total and the number of Aces.
\<close>

lemma settleAces_adjust:
  "sum_list (settleAces vs) = adjustScoreForAces (sum_list vs) (int (count_list vs 11))"
proof (induction vs rule: settleAces.induct)
  case (1 vs)
  show ?case
  proof (cases "sum_list vs > 21 \<and> 11 \<in> set vs")
    case True
    then have "count_list vs 11 \<noteq> 0"
      by (simp add: count_list_0_iff)
    then have pos: "0 < int (count_list vs 11)"
      by simp
    have "sum_list (settleAces vs) = sum_list (settleAces (downgradeAce vs))"
      using True by (subst settleAces.simps) simp
    also have "\<dots> = adjustScoreForAces (sum_list vs - 10) (int (count_list vs 11) - 1)"
      using 1 True by (simp add: sum_downgradeAce count_downgradeAce)
    also have "\<dots> = adjustScoreForAces (sum_list vs) (int (count_list vs 11))"
      using True pos by (subst (2) adjustScoreForAces.simps) simp
    finally show ?thesis .
  next
    case False
    then have "settleAces vs = vs"
      by (subst settleAces.simps) auto
    moreover have "adjustScoreForAces (sum_list vs) (int (count_list vs 11)) = sum_list vs"
      using False by (subst adjustScoreForAces.simps) (auto simp: count_list_0_iff)
    ultimately show ?thesis by simp
  qed
qed

lemma count_aces:
  "int (count_list (map (\<lambda>c. rankPoints (rank c)) cs) 11) =
   int (length (filter (\<lambda>c. rank c = ''A'') cs))"
  by (induction cs) (auto simp: rankPoints_ace)

lemma referenceScore_adjust:
  "referenceScore cs =
     adjustScoreForAces (sum_list (map (\<lambda>c. cardValue (rank c)) cs))
       (int (length (filter (\<lambda>c. rank c = ''A'') cs)))"
proof -
  have "referenceScore cs =
      adjustScoreForAces (sum_list (map (\<lambda>c. rankPoints (rank c)) cs))
        (int (count_list (map (\<lambda>c. rankPoints (rank c)) cs) 11))"
    unfolding referenceScore_def by (rule settleAces_adjust)
  also have "\<dots> = adjustScoreForAces (sum_list (map (\<lambda>c. rankPoints (rank c)) cs))
        (int (length (filter (\<lambda>c. rank c = ''A'') cs)))"
    by (simp only: count_aces)
  finally show ?thesis
    by (simp only: rankPoints_cardValue)
qed

text \<open>Over the whole array, whatever the hand: the source's loop does not look at \<open>numCards\<close>.\<close>

lemma evaluateHandScore_whole_array: "evaluateHandScore h = referenceScore (cardArr h)"
  by (simp add: evaluateHandScore_def referenceScore_adjust scoreLoop_acc)

section \<open>The invariant of hands\<close>

lemma hand_inv_new: "hand_inv (newHand nm)"
  by (simp add: hand_inv_def newHand_def)

lemma drop_update_replicate:
  assumes "n < length xs" "drop n xs = replicate (length xs - n) e"
  shows "drop (Suc n) (xs[n := c]) = replicate (length xs - Suc n) e"
proof -
  have "drop (Suc n) (xs[n := c]) = drop (Suc n) xs" by simp
  also have "\<dots> = tl (drop n xs)" by (simp add: drop_Suc tl_drop)
  also have "\<dots> = replicate (length xs - Suc n) e"
    using assms by (cases "length xs - n") auto
  finally show ?thesis .
qed

lemma hand_inv_add: "hand_inv h \<Longrightarrow> hand_inv (addCardToHand c h)"
  unfolding hand_inv_def addCardToHand_def
  using drop_update_replicate [of "numCards h" "cardArr h" emptyCard c]
  by auto

lemma hand_inv_fold: "hand_inv h \<Longrightarrow> hand_inv (fold addCardToHand cs h)"
  by (induction cs arbitrary: h) (auto simp: hand_inv_add)

lemma hand_inv_built: "hand_inv (fold addCardToHand cs (newHand nm))"
  by (simp add: hand_inv_fold hand_inv_new)

lemma hand_inv_slot:
  assumes "hand_inv h" "numCards h \<le> i" "i < 11"
  shows "cardArr h ! i = emptyCard"
proof -
  have len: "numCards h \<le> length (cardArr h)"
    and d: "drop (numCards h) (cardArr h) = replicate (11 - numCards h) emptyCard"
    using assms(1) by (simp_all add: hand_inv_def)
  have "cardArr h ! i = cardArr h ! (numCards h + (i - numCards h))"
    using assms(2) by simp
  also have "\<dots> = drop (numCards h) (cardArr h) ! (i - numCards h)"
    using len by (rule nth_drop [symmetric])
  also have "\<dots> = replicate (11 - numCards h) emptyCard ! (i - numCards h)"
    by (simp only: d)
  also have "\<dots> = emptyCard"
    using assms(2,3) by simp
  finally show ?thesis .
qed

lemma scoreLoop_take:
  assumes "hand_inv h"
  shows "scoreLoop (cardArr h) s a = scoreLoop (take (numCards h) (cardArr h)) s a"
proof -
  have "cardArr h = take (numCards h) (cardArr h) @ replicate (11 - numCards h) emptyCard"
    using assms unfolding hand_inv_def by (metis append_take_drop_id)
  then have "scoreLoop (cardArr h) s a =
      scoreLoop (take (numCards h) (cardArr h) @ replicate (11 - numCards h) emptyCard) s a"
    by simp
  also have "\<dots> = scoreLoop (take (numCards h) (cardArr h)) s a"
    by (simp add: scoreLoop_acc emptyCard_def cardValue_empty sum_list_replicate)
  finally show ?thesis .
qed

lemma evaluateHandScore_take:
  assumes "hand_inv h"
  shows "evaluateHandScore h =
     adjustScoreForAces (sum_list (map (\<lambda>c. cardValue (rank c)) (take (numCards h) (cardArr h))))
       (int (length (filter (\<lambda>c. rank c = ''A'') (take (numCards h) (cardArr h)))))"
proof -
  have "scoreLoop (cardArr h) 0 0 = scoreLoop (take (numCards h) (cardArr h)) 0 0"
    using assms by (rule scoreLoop_take)
  then show ?thesis
    by (simp add: evaluateHandScore_def scoreLoop_acc)
qed

lemma addCardToHand_below_ten:
  "numCards h < 10 \<Longrightarrow> rank c \<noteq> [] \<Longrightarrow> suit c \<noteq> [] \<Longrightarrow>
   addCardToHand c h = h\<lparr>cardArr := (cardArr h)[numCards h := c], numCards := numCards h + 1\<rparr>"
  by (simp add: addCardToHand_def)

lemma addCardToHand_at_ten: "10 \<le> numCards h \<Longrightarrow> addCardToHand c h = h"
  by (simp add: addCardToHand_def)

section \<open>The shoe\<close>

lemma length_swapCards: "length (swapCards i j cs) = length cs"
  by (simp add: swapCards_def)

lemma mset_swapCards:
  "i < length cs \<Longrightarrow> j < length cs \<Longrightarrow> mset (swapCards i j cs) = mset cs"
  unfolding swapCards_def by (rule mset_swap)

lemma length_shuffle_fold:
  "length (fold (\<lambda>i cs. swapCards i (f i) cs) idxs cs) = length cs"
  by (induction idxs arbitrary: cs) (simp_all add: length_swapCards)

lemma mset_shuffle_fold:
  assumes "\<forall>i \<in> set idxs. i < length cs \<and> f i < length cs"
  shows "mset (fold (\<lambda>i cs. swapCards i (f i) cs) idxs cs) = mset cs"
  using assms
proof (induction idxs arbitrary: cs)
  case Nil
  then show ?case by simp
next
  case (Cons i idxs)
  have "mset (fold (\<lambda>i cs. swapCards i (f i) cs) idxs (swapCards i (f i) cs)) =
        mset (swapCards i (f i) cs)"
    using Cons.prems by (intro Cons.IH) (simp add: length_swapCards)
  also have "\<dots> = mset cs"
    using Cons.prems by (simp add: mset_swapCards)
  finally show ?case by simp
qed

lemma shuffleDecks_currentCard: "currentCard (fst (shuffleDecks r s)) = currentCard s"
  by (simp add: shuffleDecks_def)

lemma shuffleDecks_length: "length (cards (fst (shuffleDecks r s))) = length (cards s)"
  by (simp add: shuffleDecks_def length_shuffle_fold)

lemma shuffleDecks_mset:
  assumes "length (cards s) = DECK_SIZE * NUMBER_OF_DECKS"
  shows "mset (cards (fst (shuffleDecks r s))) = mset (cards s)"
proof -
  have "\<forall>i \<in> set [0..<312]. i < length (cards s) \<and> r i mod 312 < length (cards s)"
    using assms by simp
  then show ?thesis
    by (simp add: shuffleDecks_def mset_shuffle_fold)
qed

lemma initializeDecks_length: "length (cards (initializeDecks s)) = 312"
  by (simp add: initializeDecks_def length_concat sum_list_triv o_def)

lemma newShoe_length: "length (cards (fst (newShoe r))) = 312"
  by (simp add: newShoe_def shuffleDecks_length initializeDecks_length)

lemma newShoe_currentCard: "currentCard (fst (newShoe r)) = 0"
  by (simp add: newShoe_def shuffleDecks_currentCard initializeDecks_def)

lemma drawCardFromShoe_reshuffle:
  "237 \<le> currentCard s \<Longrightarrow>
   drawCardFromShoe r s =
     (Reshuffled, cards (fst (shuffleDecks r s)) ! 0,
      (fst (shuffleDecks r s))\<lparr>currentCard := 1\<rparr>, snd (shuffleDecks r s))"
  by (simp add: drawCardFromShoe_def Let_def split: prod.split)

lemma drawCardFromShoe_next:
  "currentCard s < 237 \<Longrightarrow>
   drawCardFromShoe r s = (NextCard, cards s ! currentCard s, s\<lparr>currentCard := currentCard s + 1\<rparr>, r)"
  by (simp add: drawCardFromShoe_def)

lemma drawCardFromShoe_branch: "fst (drawCardFromShoe r s) \<noteq> NoMoreCards"
  by (cases "237 \<le> currentCard s") (simp_all add: drawCardFromShoe_reshuffle drawCardFromShoe_next)

lemma drawCardFromShoe_length:
  "length (cards (fst (snd (snd (drawCardFromShoe r s))))) = length (cards s)"
  by (cases "237 \<le> currentCard s")
     (simp_all add: drawCardFromShoe_reshuffle drawCardFromShoe_next shuffleDecks_length)

lemma drawCardFromShoe_cursor:
  "1 \<le> currentCard (fst (snd (snd (drawCardFromShoe r s)))) \<and>
   currentCard (fst (snd (snd (drawCardFromShoe r s)))) \<le> 237"
  by (cases "237 \<le> currentCard s")
     (simp_all add: drawCardFromShoe_reshuffle drawCardFromShoe_next)

lemma drawMany_branches: "NoMoreCards \<notin> set (fst (drawMany n r s))"
proof (induction n arbitrary: r s)
  case 0
  then show ?case by simp
next
  case (Suc n)
  obtain b c s1 r1 where d: "drawCardFromShoe r s = (b, c, s1, r1)"
    by (cases "drawCardFromShoe r s") auto
  obtain bs s2 r2 where m: "drawMany n r1 s1 = (bs, s2, r2)"
    by (cases "drawMany n r1 s1") auto
  have "b \<noteq> NoMoreCards"
    using drawCardFromShoe_branch [of r s] d by simp
  moreover have "NoMoreCards \<notin> set bs"
    using Suc.IH [of r1 s1] m by simp
  ultimately show ?case
    using d m by simp
qed

lemma swapCards_same: "swapCards i i cs = cs"
  by (simp add: swapCards_def)

lemma fold_swap_identity:
  assumes "\<forall>i \<in> set idxs. f i = i"
  shows "fold (\<lambda>i cs. swapCards i (f i) cs) idxs cs = cs"
  using assms by (induction idxs arbitrary: cs) (simp_all add: swapCards_same)

lemma shuffleDecks_tail_identity:
  assumes "k \<le> 312" and "\<forall>i. k \<le> i \<and> i < 312 \<longrightarrow> r i mod 312 = i"
  shows "fst (shuffleDecks r s) = s\<lparr>cards := fold (\<lambda>i cs. swapCards i (r i mod 312) cs) [0..<k] (cards s)\<rparr>"
proof -
  have split: "[0..<312] = [0..<k] @ [k..<312]"
    using assms(1) by (metis le_add_diff_inverse upt_add_eq_append zero_le)
  have "fold (\<lambda>i cs. swapCards i (r i mod 312) cs) [k..<312] cs = cs" for cs
    using assms(2) by (intro fold_swap_identity) simp
  then show ?thesis
    by (simp add: shuffleDecks_def split)
qed

lemma newShoe_swapsApplied:
  assumes "k \<le> 312" and "\<forall>i. k \<le> i \<and> i < 312 \<longrightarrow> r i mod 312 = i"
  shows "fst (newShoe r) = swapsApplied r k"
  unfolding newShoe_def swapsApplied_def initialShoe_def
  using shuffleDecks_tail_identity [OF assms] by simp

lemma newShoe_snd: "snd (newShoe r) = (\<lambda>n. r (n + DECK_SIZE * NUMBER_OF_DECKS))"
  by (simp add: newShoe_def shuffleDecks_def)

lemma drawFromShoe_next:
  "currentCard d < 237 \<Longrightarrow>
   drawFromShoe hand d r = (takeCard (cards d ! currentCard d) hand, d\<lparr>currentCard := currentCard d + 1\<rparr>, r)"
  by (simp add: drawFromShoe_def drawCardFromShoe_next takeCard_def)

lemma dealPass:
  assumes "k \<le> length hands" "currentCard d + k \<le> 237"
  shows "fold dealOne [0..<k] (hands, d, r) =
     (map (\<lambda>i. takeCard (cards d ! (currentCard d + i)) (hands ! i)) [0..<k] @ drop k hands,
      d\<lparr>currentCard := currentCard d + k\<rparr>, r)"
  using assms
proof (induction k)
  case 0
  then show ?case by simp
next
  case (Suc k)
  let ?done = "map (\<lambda>i. takeCard (cards d ! (currentCard d + i)) (hands ! i)) [0..<k]"
  let ?d = "d\<lparr>currentCard := currentCard d + k\<rparr>"
  have len: "length ?done = k" by simp
  have k: "k < length hands" using Suc.prems by simp
  have step: "fold dealOne [0..<k] (hands, d, r) = (?done @ drop k hands, ?d, r)"
    using Suc by simp
  have nth: "(?done @ drop k hands) ! k = hands ! k"
    using k by (simp add: nth_append)
  have upd: "(?done @ drop k hands)[k := h] = ?done @ h # drop (Suc k) hands" for h
  proof -
    have dk: "drop k hands = hands ! k # drop (Suc k) hands"
      using k by (rule Cons_nth_drop_Suc [symmetric])
    have "(?done @ drop k hands)[k := h] = ?done @ (drop k hands)[0 := h]"
      using len by (simp add: list_update_append)
    also have "\<dots> = ?done @ h # drop (Suc k) hands"
      by (subst dk) simp
    finally show ?thesis .
  qed
  have "dealOne k (?done @ drop k hands, ?d, r) =
      (?done @ takeCard (cards d ! (currentCard d + k)) (hands ! k) # drop (Suc k) hands,
       d\<lparr>currentCard := currentCard d + Suc k\<rparr>, r)"
    using Suc.prems by (simp add: dealOne_def drawFromShoe_next nth upd)
  then show ?case
    using step by simp
qed

lemma dealPass_all:
  assumes "currentCard d + length hands \<le> 237"
  shows "fold dealOne [0..<length hands] (hands, d, r) =
     (map (\<lambda>i. takeCard (cards d ! (currentCard d + i)) (hands ! i)) [0..<length hands],
      d\<lparr>currentCard := currentCard d + length hands\<rparr>, r)"
  using dealPass [of "length hands" hands d r] assms by simp

lemma dealCards_no_reshuffle:
  assumes "currentCard d + 2 * length hands \<le> 237"
  shows "dealCards hands d r =
     (map (\<lambda>i. takeCard (cards d ! (currentCard d + length hands + i))
                  (takeCard (cards d ! (currentCard d + i)) (hands ! i))) [0..<length hands],
      d\<lparr>currentCard := currentCard d + 2 * length hands\<rparr>, r)"
proof -
  let ?h1 = "map (\<lambda>i. takeCard (cards d ! (currentCard d + i)) (hands ! i)) [0..<length hands]"
  let ?d1 = "d\<lparr>currentCard := currentCard d + length hands\<rparr>"
  have one: "fold dealOne [0..<length hands] (hands, d, r) = (?h1, ?d1, r)"
    using assms by (intro dealPass_all) simp
  have "fold dealOne [0..<length ?h1] (?h1, ?d1, r) =
      (map (\<lambda>i. takeCard (cards ?d1 ! (currentCard ?d1 + i)) (?h1 ! i)) [0..<length ?h1],
       ?d1\<lparr>currentCard := currentCard ?d1 + length ?h1\<rparr>, r)"
    using assms by (intro dealPass_all) simp
  then have two: "fold dealOne [0..<length hands] (?h1, ?d1, r) =
      (map (\<lambda>i. takeCard (cards d ! (currentCard d + length hands + i))
                  (takeCard (cards d ! (currentCard d + i)) (hands ! i))) [0..<length hands],
       d\<lparr>currentCard := currentCard d + 2 * length hands\<rparr>, r)"
    by simp
  have "dealCards hands d r =
      fold dealOne [0..<length hands] (fold dealOne [0..<length hands] (hands, d, r))"
    by (simp add: dealCards_def eval_nat_numeral)
  then show ?thesis
    by (simp only: one two)
qed

lemma collectCards_currentCard: "currentCard (fst (snd (collectCards hands deck r))) = 0"
proof -
  have "currentCard (fst (shuffleDecks r (deck\<lparr>currentCard := 0\<rparr>))) = 0"
    by (simp only: shuffleDecks_currentCard) simp
  then show ?thesis
    by (simp add: collectCards_def split: prod.split)
qed

lemma collectCards_hands:
  "fst (collectCards hands deck r) = map (\<lambda>hand. hand\<lparr>numCards := 0\<rparr>) hands"
  by (simp add: collectCards_def split: prod.split)

lemma collectCards_deck:
  "fst (snd (collectCards hands deck r)) = fst (shuffleDecks r (deck\<lparr>currentCard := 0\<rparr>)) \<and>
   snd (snd (collectCards hands deck r)) = snd (shuffleDecks r (deck\<lparr>currentCard := 0\<rparr>))"
  by (simp add: collectCards_def split: prod.split)

section \<open>Running a round on a given shoe\<close>

lemma take_nth_eq: "take n xs = ys \<Longrightarrow> i < n \<Longrightarrow> xs ! i = ys ! i"
  by (metis nth_take)

lemma takeCard_add: "rank c \<noteq> [] \<Longrightarrow> suit c \<noteq> [] \<Longrightarrow> takeCard c h = addCardToHand c h"
  by (simp add: takeCard_def)

lemma nonempty_cards:
  "rank kingOfClubs \<noteq> []" "suit kingOfClubs \<noteq> []"
  "rank aceOfClubs \<noteq> []" "suit aceOfClubs \<noteq> []"
  "rank queenOfClubs \<noteq> []" "suit queenOfClubs \<noteq> []"
  "rank jackOfClubs \<noteq> []" "suit jackOfClubs \<noteq> []"
  "rank tenOfClubs \<noteq> []" "suit tenOfClubs \<noteq> []"
  "rank nineOfClubs \<noteq> []" "suit nineOfClubs \<noteq> []"
  "rank eightOfClubs \<noteq> []" "suit eightOfClubs \<noteq> []"
  "rank twoOfClubs \<noteq> []" "suit twoOfClubs \<noteq> []"
  "rank twoOfDiamonds \<noteq> []" "suit twoOfDiamonds \<noteq> []"
  "rank twoOfHearts \<noteq> []" "suit twoOfHearts \<noteq> []"
  "rank twoOfSpades \<noteq> []" "suit twoOfSpades \<noteq> []"
  "rank aceOfDiamonds \<noteq> []" "suit aceOfDiamonds \<noteq> []"
  "rank aceOfHearts \<noteq> []" "suit aceOfHearts \<noteq> []"
  "rank aceOfSpades \<noteq> []" "suit aceOfSpades \<noteq> []"
  by code_simp+


lemma initializeGameHands_one: "initializeGameHands 1 = [newHand ''Player 1'', newHand ''Dealer'']"
  by code_simp

lemma initializeGameHands_two:
  "initializeGameHands 2 = [newHand ''Player 1'', newHand ''Player 2'', newHand ''Dealer'']"
  by code_simp

lemma dealCards_two_hands:
  assumes "currentCard d + 4 \<le> 237"
  shows "dealCards [p, dl] d r =
     ([takeCard (cards d ! (currentCard d + 2)) (takeCard (cards d ! currentCard d) p),
       takeCard (cards d ! (currentCard d + 3)) (takeCard (cards d ! (currentCard d + 1)) dl)],
      d\<lparr>currentCard := currentCard d + 4\<rparr>, r)"
proof -
  have "[0..<length [p, dl]] = [0, 1]"
    by (simp add: upt_rec)
  then show ?thesis
    using dealCards_no_reshuffle [of d "[p, dl]" r] assms
    by (simp add: numeral_3_eq_3)
qed

lemma dealCards_three_hands:
  assumes "currentCard d + 6 \<le> 237"
  shows "dealCards [p, q, dl] d r =
     ([takeCard (cards d ! (currentCard d + 3)) (takeCard (cards d ! currentCard d) p),
       takeCard (cards d ! (currentCard d + 4)) (takeCard (cards d ! (currentCard d + 1)) q),
       takeCard (cards d ! (currentCard d + 5)) (takeCard (cards d ! (currentCard d + 2)) dl)],
      d\<lparr>currentCard := currentCard d + 6\<rparr>, r)"
proof -
  have "[0..<length [p, q, dl]] = [0, 1, 2]"
    by (simp add: upt_rec)
  then show ?thesis
    using dealCards_no_reshuffle [of d "[p, q, dl]" r] assms
    by (simp add: numeral_3_eq_3 eval_nat_numeral)
qed

lemma playRound_Some:
  assumes "playRoundTurns ds deck r n st = Some (ds1, hands, deck1, r1, st1)"
  shows "playRound ds deck r n st =
     Some (ds1, fst (snd (collectCards hands deck1 r1)), snd (snd (collectCards hands deck1 r1)),
           determineWinner hands st1 n)"
  using assms by (simp add: playRound_def split: prod.split)

lemma playRound_None:
  "playRoundTurns ds deck r n st = None \<Longrightarrow> playRound ds deck r n st = None"
  by (simp add: playRound_def)

subsection \<open>The round counter\<close>

lemma fold_keeps:
  assumes "\<And>i st. g (f i st) = g st"
  shows "g (fold f idxs st) = g st"
  using assms by (induction idxs arbitrary: st) simp_all

lemma compareHands_totalRounds: "totalRounds (compareHands p dl st i) = totalRounds st"
  by (simp add: compareHands_def Let_def)

lemma settleStep_totalRounds: "totalRounds (settleStep hands i st) = totalRounds st"
  by (simp add: settleStep_def Let_def compareHands_totalRounds)

lemma dealerBustedStep_totalRounds: "totalRounds (dealerBustedStep hands i st) = totalRounds st"
  by (simp add: dealerBustedStep_def)

lemma naturalStep_totalRounds: "totalRounds (fst (naturalStep hands i q)) = totalRounds (fst q)"
  by (cases q) (simp add: naturalStep_def)

lemma flagStep_totalRounds: "totalRounds (flagStep hands i st) = totalRounds st"
  by (simp add: flagStep_def)

lemma determineWinner_totalRounds:
  "totalRounds (determineWinner hands st n) = totalRounds st + 1"
proof -
  have a: "totalRounds (fold (settleStep hands) idxs s) = totalRounds s" for idxs s
    by (rule fold_keeps) (rule settleStep_totalRounds)
  have b: "totalRounds (fold (dealerBustedStep hands) idxs s) = totalRounds s" for idxs s
    by (rule fold_keeps) (rule dealerBustedStep_totalRounds)
  show ?thesis
    by (simp add: determineWinner_def Let_def a b)
qed

lemma checkBlackjack_totalRounds: "totalRounds (checkBlackjack hands st n) = totalRounds st"
proof -
  have a: "totalRounds (fst (fold (naturalStep hands) idxs q)) = totalRounds (fst q)" for idxs q
    by (rule fold_keeps [where g = "\<lambda>q. totalRounds (fst q)"]) (rule naturalStep_totalRounds)
  have b: "totalRounds (fold (flagStep hands) idxs s) = totalRounds s" for idxs s
    by (rule fold_keeps) (rule flagStep_totalRounds)
  show ?thesis
  proof (cases "isBlackjack (last hands)")
    case True
    obtain s2 f where q: "fold (naturalStep hands) [0..<length hands - 1]
        (st\<lparr>dealerBlackjack := True\<rparr>, False) = (s2, f)"
      by (cases "fold (naturalStep hands) [0..<length hands - 1] (st\<lparr>dealerBlackjack := True\<rparr>, False)")
    have "totalRounds s2 = totalRounds st"
      using a [of "[0..<length hands - 1]" "(st\<lparr>dealerBlackjack := True\<rparr>, False)"] q by simp
    then show ?thesis
      using True q by (simp add: checkBlackjack_def)
  next
    case False
    then show ?thesis
      by (simp add: checkBlackjack_def b)
  qed
qed

lemma playRoundTurns_stats:
  assumes "playRoundTurns ds deck r n st = Some (ds1, hands, deck1, r1, st1)"
  shows "st1 = checkBlackjack (fst (dealCards (initializeGameHands n) deck r)) st n"
  using assms
  by (auto simp: playRoundTurns_def Let_def split: prod.splits if_splits option.splits)

lemma playRound_totalRounds:
  assumes "playRound ds deck r n st = Some (ds1, deck1, r1, st1)"
  shows "totalRounds st1 = totalRounds st + 1 \<and> currentCard deck1 = 0"
proof -
  obtain ds2 hands deck2 r2 st2 where
    t: "playRoundTurns ds deck r n st = Some (ds2, hands, deck2, r2, st2)"
    using assms by (cases "playRoundTurns ds deck r n st") (auto simp: playRound_def)
  have "playRound ds deck r n st =
     Some (ds2, fst (snd (collectCards hands deck2 r2)), snd (snd (collectCards hands deck2 r2)),
           determineWinner hands st2 n)"
    using t by (rule playRound_Some)
  with assms have "st1 = determineWinner hands st2 n"
    and "deck1 = fst (snd (collectCards hands deck2 r2))"
    by simp_all
  moreover have "totalRounds st2 = totalRounds st"
    using playRoundTurns_stats [OF t] by (simp add: checkBlackjack_totalRounds)
  ultimately show ?thesis
    by (simp add: determineWinner_totalRounds collectCards_currentCard)
qed

subsection \<open>The dealer's loop\<close>

lemma dealerTurn_stand:
  "\<not> evaluateHandScore h < DEALER_STAND \<Longrightarrow> dealerTurn h d r = Some (h, d, r)"
  by (subst dealerTurn.simps) simp

lemma dealerTurn_draw:
  "evaluateHandScore h < DEALER_STAND \<Longrightarrow> currentCard d < 237 \<Longrightarrow>
   dealerTurn h d r =
     dealerTurn (addCardToHand (cards d ! currentCard d) h) (d\<lparr>currentCard := currentCard d + 1\<rparr>) r"
  by (subst dealerTurn.simps) (simp add: drawCardFromShoe_next)

lemma dealerTurn_returns_not_stuck:
  assumes "dealerTurn h d r = Some y"
  shows "\<not> (10 \<le> numCards h \<and> evaluateHandScore h < DEALER_STAND)"
proof (rule dealerTurn.raw_induct
    [where P = "\<lambda>h d r y. \<not> (10 \<le> numCards h \<and> evaluateHandScore h < DEALER_STAND)", OF _ assms])
  fix loop :: "Hand \<Rightarrow> Shoe \<Rightarrow> rng \<Rightarrow> (Hand \<times> Shoe \<times> rng) option" and h d r y
  assume IH: "\<And>h d r y. loop h d r = Some y \<Longrightarrow>
      \<not> (10 \<le> numCards h \<and> evaluateHandScore h < DEALER_STAND)"
    and body: "(if evaluateHandScore h < DEALER_STAND
        then case drawCardFromShoe r d of (b, c, d1, r1) \<Rightarrow> loop (addCardToHand c h) d1 r1
        else Some (h, d, r)) = Some y"
  show "\<not> (10 \<le> numCards h \<and> evaluateHandScore h < DEALER_STAND)"
  proof
    assume stuck: "10 \<le> numCards h \<and> evaluateHandScore h < DEALER_STAND"
    obtain b c d1 r1 where draw: "drawCardFromShoe r d = (b, c, d1, r1)"
      by (cases "drawCardFromShoe r d") auto
    have "addCardToHand c h = h"
      using stuck by (simp add: addCardToHand_at_ten)
    with body stuck draw have "loop h d1 r1 = Some y"
      by simp
    then have "\<not> (10 \<le> numCards h \<and> evaluateHandScore h < DEALER_STAND)"
      by (rule IH)
    with stuck show False by simp
  qed
qed

lemma dealerTurn_stuck:
  assumes "10 \<le> numCards h" and "evaluateHandScore h < DEALER_STAND"
  shows "dealerTurn h d r = None"
proof (cases "dealerTurn h d r")
  case None
  then show ?thesis .
next
  case (Some y)
  then show ?thesis
    using dealerTurn_returns_not_stuck [of h d r y] assms by simp
qed

lemma dealerTurn_returns_score:
  assumes "dealerTurn h d r = Some y"
  shows "DEALER_STAND \<le> evaluateHandScore (fst y)"
proof (rule dealerTurn.raw_induct
    [where P = "\<lambda>h d r y. DEALER_STAND \<le> evaluateHandScore (fst y)", OF _ assms])
  fix loop :: "Hand \<Rightarrow> Shoe \<Rightarrow> rng \<Rightarrow> (Hand \<times> Shoe \<times> rng) option" and h d r y
  assume IH: "\<And>h d r y. loop h d r = Some y \<Longrightarrow> DEALER_STAND \<le> evaluateHandScore (fst y)"
    and body: "(if evaluateHandScore h < DEALER_STAND
        then case drawCardFromShoe r d of (b, c, d1, r1) \<Rightarrow> loop (addCardToHand c h) d1 r1
        else Some (h, d, r)) = Some y"
  show "DEALER_STAND \<le> evaluateHandScore (fst y)"
  proof (cases "evaluateHandScore h < DEALER_STAND")
    case True
    obtain b c d1 r1 where draw: "drawCardFromShoe r d = (b, c, d1, r1)"
      by (cases "drawCardFromShoe r d") auto
    with body True have "loop (addCardToHand c h) d1 r1 = Some y"
      by simp
    then show ?thesis by (rule IH)
  next
    case False
    with body show ?thesis by auto
  qed
qed

lemma dealerTurn_doomed:
  assumes "currentCard d + length cs \<le> 237"
    and "take (length cs) (drop (currentCard d) (cards d)) = cs"
    and "\<forall>k \<le> length cs. evaluateHandScore (fold addCardToHand (take k cs) h) < DEALER_STAND"
    and "10 \<le> numCards (fold addCardToHand cs h)"
  shows "dealerTurn h d r = None"
  using assms
proof (induction cs arbitrary: h d)
  case Nil
  then show ?case
    by (simp add: dealerTurn_stuck del: DEALER_STAND_def)
next
  case (Cons c cs)
  let ?d = "d\<lparr>currentCard := currentCard d + 1\<rparr>"
  have low: "evaluateHandScore h < DEALER_STAND"
    using Cons.prems(3) by (auto dest: spec [of _ 0])
  have cur: "currentCard d < 237"
    using Cons.prems(1) by simp
  have front: "drop (currentCard d) (cards d) \<noteq> []"
    using Cons.prems(2) by auto
  then have split: "drop (currentCard d) (cards d) = cards d ! currentCard d # drop (Suc (currentCard d)) (cards d)"
    by (simp add: Cons_nth_drop_Suc)
  have c: "cards d ! currentCard d = c" and rest: "take (length cs) (drop (Suc (currentCard d)) (cards d)) = cs"
    using Cons.prems(2) by (subst (asm) split, simp)+
  have "dealerTurn h d r = dealerTurn (addCardToHand c h) ?d r"
    using low cur by (simp add: dealerTurn_draw c del: DEALER_STAND_def)
  also have "\<dots> = None"
  proof (rule Cons.IH)
    show "currentCard ?d + length cs \<le> 237"
      using Cons.prems(1) by simp
    show "take (length cs) (drop (currentCard ?d) (cards ?d)) = cs"
      using rest by simp
    show "\<forall>k \<le> length cs. evaluateHandScore (fold addCardToHand (take k cs) (addCardToHand c h)) < DEALER_STAND"
    proof (intro allI impI)
      fix k assume "k \<le> length cs"
      then have "evaluateHandScore (fold addCardToHand (take (Suc k) (c # cs)) h) < DEALER_STAND"
        using Cons.prems(3) by (auto simp del: DEALER_STAND_def take_Suc_Cons)
      then show "evaluateHandScore (fold addCardToHand (take k cs) (addCardToHand c h)) < DEALER_STAND"
        by simp
    qed
    show "10 \<le> numCards (fold addCardToHand cs (addCardToHand c h))"
      using Cons.prems(4) by simp
  qed
  finally show ?case .
qed

subsection \<open>The deal and the blackjack check\<close>

lemma owner_addCardToHand: "owner (addCardToHand c h) = owner h"
  by (simp add: addCardToHand_def)

lemma owner_drawFromShoe: "owner (fst (drawFromShoe h d r)) = owner h"
  by (simp add: drawFromShoe_def owner_addCardToHand split: prod.split)

lemma dealOne_owners: "map owner (fst (dealOne i st)) = map owner (fst st)"
proof -
  obtain hands d r where st: "st = (hands, d, r)"
    by (cases st) auto
  obtain h1 d1 r1 where dr: "drawFromShoe (hands ! i) d r = (h1, d1, r1)"
    by (cases "drawFromShoe (hands ! i) d r") auto
  have o: "owner h1 = owner (hands ! i)"
    using owner_drawFromShoe [of "hands ! i" d r] dr by simp
  have "map owner (hands[i := h1]) = map owner hands"
  proof (cases "i < length hands")
    case True
    then show ?thesis
      by (simp add: map_update o list_update_same_conv)
  next
    case False
    then have "hands[i := h1] = hands"
      by (simp add: list_update_beyond)
    then show ?thesis by simp
  qed
  then show ?thesis
    by (simp add: st dealOne_def dr)
qed

lemma dealPass_owners: "map owner (fst (fold dealOne idxs st)) = map owner (fst st)"
  by (induction idxs arbitrary: st) (simp_all add: dealOne_owners)

lemma dealCards_owners: "map owner (fst (dealCards hands d r)) = map owner hands"
proof -
  have "map owner (fst (fold (\<lambda>round st. fold dealOne idxs st) rounds st)) = map owner (fst st)"
    for idxs and rounds :: "nat list" and st
    by (induction rounds arbitrary: st) (simp_all add: dealPass_owners)
  then show ?thesis
    by (simp add: dealCards_def)
qed

lemma dealCards_length: "length (fst (dealCards hands d r)) = length hands"
  using dealCards_owners [of hands d r] by (metis length_map)






subsection \<open>The players' turns\<close>


lemma isBlackjack_stands: "isBlackjack h \<Longrightarrow> \<not> evaluateHandScore h < DEALER_STAND"
  by (simp add: isBlackjack_def)

subsection \<open>A dealer natural with a player natural\<close>








section \<open>Concrete rounds, step by step\<close>

subsection \<open>The round with K, Q against A, J\<close>

lemma newShoe_swapFirstTwo: "fst (newShoe swapFirstTwoRng) = swapsApplied swapFirstTwoRng 1"
  by (rule newShoe_swapsApplied) (simp_all add: swapFirstTwoRng_def)

lemma swapFirstTwo_cards:
  "take 4 (cards (fst (newShoe swapFirstTwoRng))) = [kingOfClubs, aceOfClubs, queenOfClubs, jackOfClubs]"
  unfolding newShoe_swapFirstTwo by code_simp

lemma swapFirstTwo_deal:
  "dealCards (initializeGameHands 1) (fst (newShoe swapFirstTwoRng)) r =
     ([kingQueenHand, aceJackDealerHand], (fst (newShoe swapFirstTwoRng))\<lparr>currentCard := 4\<rparr>, r)"
  unfolding initializeGameHands_one kingQueenHand_def aceJackDealerHand_def
  by (simp add: dealCards_two_hands newShoe_currentCard take_nth_eq [OF swapFirstTwo_cards]
      takeCard_add nonempty_cards)

lemma swapFirstTwo_early:
  "shouldEndRoundEarly (checkBlackjack [kingQueenHand, aceJackDealerHand] (newGameStats 1) 1)"
  by code_simp

lemma swapFirstTwo_turns:
  "playRoundTurns ds (fst (newShoe swapFirstTwoRng)) r 1 (newGameStats 1) =
     Some (ds, [kingQueenHand, aceJackDealerHand], (fst (newShoe swapFirstTwoRng))\<lparr>currentCard := 4\<rparr>, r,
           checkBlackjack [kingQueenHand, aceJackDealerHand] (newGameStats 1) 1)"
  by (simp add: playRoundTurns_def swapFirstTwo_deal swapFirstTwo_early del: One_nat_def)

lemma swapFirstTwo_stats:
  "playerLosses (checkBlackjack [kingQueenHand, aceJackDealerHand] (newGameStats 1) 1) = [1]"
  "playerWins (determineWinner [kingQueenHand, aceJackDealerHand]
      (checkBlackjack [kingQueenHand, aceJackDealerHand] (newGameStats 1) 1) 1) = [0]"
  "playerLosses (determineWinner [kingQueenHand, aceJackDealerHand]
      (checkBlackjack [kingQueenHand, aceJackDealerHand] (newGameStats 1) 1) 1) = [2]"
  "playerTies (determineWinner [kingQueenHand, aceJackDealerHand]
      (checkBlackjack [kingQueenHand, aceJackDealerHand] (newGameStats 1) 1) 1) = [0]"
  "totalRounds (determineWinner [kingQueenHand, aceJackDealerHand]
      (checkBlackjack [kingQueenHand, aceJackDealerHand] (newGameStats 1) 1) 1) = 1"
  by code_simp+

subsection \<open>The round with A, Q against K, J\<close>

lemma newShoe_identity: "fst (newShoe identityRng) = swapsApplied identityRng 0"
  by (rule newShoe_swapsApplied) (simp_all add: identityRng_def)

lemma identity_cards:
  "take 4 (cards (fst (newShoe identityRng))) = [aceOfClubs, kingOfClubs, queenOfClubs, jackOfClubs]"
  unfolding newShoe_identity by code_simp

lemma identity_deal:
  "dealCards (initializeGameHands 1) (fst (newShoe identityRng)) r =
     ([aceQueenHand, kingJackDealerHand], (fst (newShoe identityRng))\<lparr>currentCard := 4\<rparr>, r)"
  unfolding initializeGameHands_one aceQueenHand_def kingJackDealerHand_def
  by (simp add: dealCards_two_hands newShoe_currentCard take_nth_eq [OF identity_cards]
      takeCard_add nonempty_cards)

lemma identity_facts:
  "\<not> shouldEndRoundEarly (checkBlackjack [aceQueenHand, kingJackDealerHand] (newGameStats 1) 1)"
  "isBlackjack aceQueenHand"
  "owner kingJackDealerHand = ''Dealer''"
  "\<not> evaluateHandScore kingJackDealerHand < DEALER_STAND"
  by code_simp+

lemma identity_turns:
  "playRoundTurns ds (fst (newShoe identityRng)) r 1 (newGameStats 1) =
     Some (ds, [aceQueenHand, kingJackDealerHand], (fst (newShoe identityRng))\<lparr>currentCard := 4\<rparr>, r,
           checkBlackjack [aceQueenHand, kingJackDealerHand] (newGameStats 1) 1)"
  by (simp add: playRoundTurns_def identity_deal identity_facts dealerTurn_stand del: One_nat_def DEALER_STAND_def)

subsection \<open>The round with A, 9 against 2, 2 and low cards to come\<close>

lemma newShoe_lowCards: "fst (newShoe lowCardsRng) = swapsApplied lowCardsRng 12"
  by (rule newShoe_swapsApplied) (simp_all add: lowCardsRng_def)

lemma lowCards_cards:
  "take 12 (cards (fst (newShoe lowCardsRng))) =
     [aceOfClubs, twoOfClubs, nineOfClubs, twoOfDiamonds] @ nextEightCards"
  unfolding newShoe_lowCards by code_simp

lemma lowCards_deal:
  "dealCards (initializeGameHands 1) (fst (newShoe lowCardsRng)) r =
     ([aceNineHand, twoTwoDealerHand], (fst (newShoe lowCardsRng))\<lparr>currentCard := 4\<rparr>, r)"
  unfolding initializeGameHands_one aceNineHand_def twoTwoDealerHand_def
  by (simp add: dealCards_two_hands newShoe_currentCard take_nth_eq [OF lowCards_cards]
      takeCard_add nonempty_cards)

lemma lowCards_facts:
  "\<not> shouldEndRoundEarly (checkBlackjack [aceNineHand, twoTwoDealerHand] (newGameStats 1) 1)"
  "\<not> isBlackjack aceNineHand"
  "owner aceNineHand \<noteq> ''Dealer''"
  "owner twoTwoDealerHand = ''Dealer''"
  by code_simp+

lemma lowCards_next:
  "take (length nextEightCards)
     (drop (currentCard ((fst (newShoe lowCardsRng))\<lparr>currentCard := 4\<rparr>))
        (cards ((fst (newShoe lowCardsRng))\<lparr>currentCard := 4\<rparr>))) = nextEightCards"
proof -
  have "take 8 (drop 4 (cards (fst (newShoe lowCardsRng)))) =
      drop 4 (take 12 (cards (fst (newShoe lowCardsRng))))"
    by (simp add: drop_take)
  also have "\<dots> = nextEightCards"
    by (simp only: lowCards_cards) simp
  finally have eq: "take 8 (drop 4 (cards (fst (newShoe lowCardsRng)))) = nextEightCards" .
  have len: "length nextEightCards = 8"
    by (simp add: nextEightCards_def)
  show ?thesis
    unfolding len by (simp add: eq)
qed

lemma lowCards_scores:
  "\<forall>k \<le> length nextEightCards.
     evaluateHandScore (fold addCardToHand (take k nextEightCards) twoTwoDealerHand) < DEALER_STAND"
proof -
  have "\<forall>k \<in> set [0..<9].
     evaluateHandScore (fold addCardToHand (take k nextEightCards) twoTwoDealerHand) < DEALER_STAND"
    by code_simp
  moreover have "length nextEightCards = 8"
    by (simp add: nextEightCards_def)
  ultimately show ?thesis
    by (simp del: DEALER_STAND_def)
qed

lemma lowCards_full: "10 \<le> numCards (fold addCardToHand nextEightCards twoTwoDealerHand)"
  by code_simp

lemma lowCards_dealer:
  "dealerTurn twoTwoDealerHand ((fst (newShoe lowCardsRng))\<lparr>currentCard := 4\<rparr>) r = None"
proof (rule dealerTurn_doomed [where cs = nextEightCards])
  show "currentCard ((fst (newShoe lowCardsRng))\<lparr>currentCard := 4\<rparr>) + length nextEightCards \<le> 237"
    by (simp add: nextEightCards_def)
qed (rule lowCards_next lowCards_scores lowCards_full)+

lemma lowCards_turns:
  "playRoundTurns [Stand] (fst (newShoe lowCardsRng)) r 1 (newGameStats 1) = None"
  by (simp add: playRoundTurns_def lowCards_deal lowCards_facts lowCards_dealer del: One_nat_def)

subsection \<open>The round with A, J and K, T against Q, A\<close>

lemma newShoe_twoNaturals: "fst (newShoe twoNaturalsRng) = swapsApplied twoNaturalsRng 6"
  by (rule newShoe_swapsApplied) (simp_all add: twoNaturalsRng_def)

lemma twoNaturals_cards:
  "take 7 (cards (fst (newShoe twoNaturalsRng))) =
     [aceOfClubs, kingOfClubs, queenOfClubs, jackOfClubs, tenOfClubs, aceOfDiamonds, eightOfClubs]"
  unfolding newShoe_twoNaturals by code_simp

lemma twoNaturals_deal:
  "dealCards (initializeGameHands 2) (fst (newShoe twoNaturalsRng)) r =
     ([aceJackHand, kingTenHand, queenAceDealerHand], (fst (newShoe twoNaturalsRng))\<lparr>currentCard := 6\<rparr>, r)"
  unfolding initializeGameHands_two aceJackHand_def kingTenHand_def queenAceDealerHand_def
  by (simp add: dealCards_three_hands newShoe_currentCard take_nth_eq [OF twoNaturals_cards]
      takeCard_add nonempty_cards)

lemma twoNaturals_facts:
  "\<not> shouldEndRoundEarly (checkBlackjack [aceJackHand, kingTenHand, queenAceDealerHand] (newGameStats 2) 2)"
  "isBlackjack aceJackHand"
  "\<not> isBlackjack kingTenHand"
  "owner kingTenHand \<noteq> ''Dealer''"
  "owner queenAceDealerHand = ''Dealer''"
  "isBlackjack queenAceDealerHand"
  "evaluateHandScore (addCardToHand eightOfClubs kingTenHand) > BLACKJACK"
  by code_simp+




lemma twoNaturals_stand:
  "playRoundTurns [Stand] (fst (newShoe twoNaturalsRng)) r 2 (newGameStats 2) =
     Some ([], [aceJackHand, kingTenHand, queenAceDealerHand],
           (fst (newShoe twoNaturalsRng))\<lparr>currentCard := 6\<rparr>, r,
           checkBlackjack [aceJackHand, kingTenHand, queenAceDealerHand] (newGameStats 2) 2)"
  by (simp add: playRoundTurns_def twoNaturals_deal twoNaturals_facts(1-6)
      dealerTurn_stand isBlackjack_stands del: DEALER_STAND_def)

lemma twoNaturals_stats:
  "playerWins (determineWinner [aceJackHand, kingTenHand, queenAceDealerHand]
      (checkBlackjack [aceJackHand, kingTenHand, queenAceDealerHand] (newGameStats 2) 2) 2) = [0, 0]"
  "playerLosses (determineWinner [aceJackHand, kingTenHand, queenAceDealerHand]
      (checkBlackjack [aceJackHand, kingTenHand, queenAceDealerHand] (newGameStats 2) 2) 2) = [0, 2]"
  "playerTies (determineWinner [aceJackHand, kingTenHand, queenAceDealerHand]
      (checkBlackjack [aceJackHand, kingTenHand, queenAceDealerHand] (newGameStats 2) 2) 2) = [2, 0]"
  by code_simp+

subsection \<open>The round with Q, J and K, 9 against A, T\<close>





section \<open>Claims about hands\<close>

text \<open>
  C4. The claim: a card with non-empty rank and suit is appended while the hand holds fewer
  than 11 cards, so that a hand can grow to exactly 11 cards. The source tests
  \<^verbatim>\<open>numCards < MAX_HAND_SIZE - 1\<close> with \<^verbatim>\<open>Hand::MAX_HAND_SIZE = 11\<close>, so the capacity is 10:
  the hand that holds the first ten cards of A, A, A, A, 2, 2, 2, 2, 3, 3, 3 has
  \<open>numCards = 10\<close>, and adding the eleventh card, a well-formed three of hearts, leaves it
  unchanged.
\<close>

theorem addCardToHand_rejects_eleventh_card:
  "numCards tenCardHand = 10 \<and>
   rank threeOfHearts \<noteq> [] \<and> suit threeOfHearts \<noteq> [] \<and>
   addCardToHand threeOfHearts tenCardHand = tenCardHand \<and>
   numCards (addCardToHand threeOfHearts tenCardHand) = 10"
  by code_simp

text \<open>
  C5. On every hand built from a new hand by \<^verbatim>\<open>addCardToHand\<close> calls, \<^verbatim>\<open>evaluateHandScore\<close>
  is the reference computation on the cards in the hand (its first \<open>numCards\<close> slots): the
  sum of the per-rank values, with Aces counted down from 11 to 1 one at a time while the
  total exceeds 21. A hand of two Aces scores 12, a hand of five Aces scores 15
  (55, 45, 35, 25, 15), and the hand A, A, A, A, 2, 2, 2, 2, 3, 3 scores 18 with all four
  Aces counted as 1. (On a hand record whose slots beyond \<open>numCards\<close> are not empty the score
  is the reference computation on the whole array: \<open>evaluateHandScore_whole_array\<close>.)
\<close>

theorem evaluateHandScore_reference:
  "evaluateHandScore (fold addCardToHand cs (newHand nm)) =
     referenceScore (take (numCards (fold addCardToHand cs (newHand nm)))
                          (cardArr (fold addCardToHand cs (newHand nm)))) \<and>
   evaluateHandScore (fold addCardToHand [aceOfClubs, aceOfDiamonds] (newHand ''Player 1'')) = 12 \<and>
   evaluateHandScore (fold addCardToHand
      [aceOfClubs, aceOfDiamonds, aceOfHearts, aceOfSpades, aceOfClubs] (newHand ''Dealer'')) = 15 \<and>
   evaluateHandScore tenCardHand = 18"
proof -
  have "hand_inv (fold addCardToHand cs (newHand nm))"
    by (rule hand_inv_built)
  then have "evaluateHandScore (fold addCardToHand cs (newHand nm)) =
     referenceScore (take (numCards (fold addCardToHand cs (newHand nm)))
                          (cardArr (fold addCardToHand cs (newHand nm))))"
    by (simp only: evaluateHandScore_take referenceScore_adjust)
  moreover have
    "evaluateHandScore (fold addCardToHand [aceOfClubs, aceOfDiamonds] (newHand ''Player 1'')) = 12"
    by code_simp
  moreover have "evaluateHandScore (fold addCardToHand
      [aceOfClubs, aceOfDiamonds, aceOfHearts, aceOfSpades, aceOfClubs] (newHand ''Dealer'')) = 15"
    by code_simp
  moreover have "evaluateHandScore tenCardHand = 18"
    by code_simp
  ultimately show ?thesis by blast
qed

text \<open>
  C10. In every hand built from a new hand by \<^verbatim>\<open>addCardToHand\<close> calls, each slot of the
  array at an index from \<open>numCards\<close> on holds a card with empty rank and empty suit, and the
  score, which \<^verbatim>\<open>evaluateHandScore\<close> computes from the whole array, is the score computed
  from the first \<open>numCards\<close> slots alone.
\<close>

theorem unused_slots_stay_empty:
  "(\<forall>i. numCards (fold addCardToHand cs (newHand nm)) \<le> i \<and> i < Hand_MAX_HAND_SIZE \<longrightarrow>
        rank (cardArr (fold addCardToHand cs (newHand nm)) ! i) = [] \<and>
        suit (cardArr (fold addCardToHand cs (newHand nm)) ! i) = []) \<and>
   evaluateHandScore (fold addCardToHand cs (newHand nm)) =
     adjustScoreForAces
       (sum_list (map (\<lambda>c. cardValue (rank c))
          (take (numCards (fold addCardToHand cs (newHand nm)))
                (cardArr (fold addCardToHand cs (newHand nm))))))
       (int (length (filter (\<lambda>c. rank c = ''A'')
          (take (numCards (fold addCardToHand cs (newHand nm)))
                (cardArr (fold addCardToHand cs (newHand nm)))))))"
proof -
  have inv: "hand_inv (fold addCardToHand cs (newHand nm))"
    by (rule hand_inv_built)
  have "cardArr (fold addCardToHand cs (newHand nm)) ! i = emptyCard"
    if "numCards (fold addCardToHand cs (newHand nm)) \<le> i" "i < 11" for i
    using inv that by (rule hand_inv_slot)
  then have "\<forall>i. numCards (fold addCardToHand cs (newHand nm)) \<le> i \<and> i < Hand_MAX_HAND_SIZE \<longrightarrow>
        rank (cardArr (fold addCardToHand cs (newHand nm)) ! i) = [] \<and>
        suit (cardArr (fold addCardToHand cs (newHand nm)) ! i) = []"
    by (simp add: emptyCard_def)
  with evaluateHandScore_take [OF inv] show ?thesis by blast
qed

theorem unused_slots_stay_empty_witness:
  "numCards (fold addCardToHand [kingOfSpades, twoOfClubs, threeOfHearts] (newHand ''Player 2'')) \<le> 3 \<and>
   3 < Hand_MAX_HAND_SIZE \<and>
   rank (cardArr (fold addCardToHand [kingOfSpades, twoOfClubs, threeOfHearts] (newHand ''Player 2'')) ! 3) = [] \<and>
   suit (cardArr (fold addCardToHand [kingOfSpades, twoOfClubs, threeOfHearts] (newHand ''Player 2'')) ! 3) = []"
proof -
  have n: "numCards (fold addCardToHand [kingOfSpades, twoOfClubs, threeOfHearts] (newHand ''Player 2'')) \<le> 3"
    by code_simp
  show ?thesis
    using n unused_slots_stay_empty [of "[kingOfSpades, twoOfClubs, threeOfHearts]" "''Player 2''"]
    by simp
qed

section \<open>Claims about the shoe\<close>

text \<open>
  C7. For every shoe (an array of 312 cards) with its cursor in [0, 312], whatever
  \<^verbatim>\<open>rand()\<close> returns: when the cursor is at least 312 - 75 = 237, \<^verbatim>\<open>drawCardFromShoe\<close>
  reshuffles, sets the cursor to 0, returns the card at index 0 and leaves the cursor at 1;
  otherwise it returns the card at the cursor and advances the cursor by 1. The card is read
  at an index inside the array, the new cursor lies in [1, 237], the branch that prints
  "No more cards" is not taken, and no draw in a sequence of \<open>n\<close> draws takes it.
\<close>

theorem drawCardFromShoe_never_exhausted:
  assumes "length (cards s) = DECK_SIZE * NUMBER_OF_DECKS"
    and "currentCard s \<le> DECK_SIZE * NUMBER_OF_DECKS"
    and "drawCardFromShoe r s = (b, c, s1, r1)"
  shows "(if currentCard s \<ge> DECK_SIZE * NUMBER_OF_DECKS - RESHUFFLE_THRESHOLD
          then s1 = (fst (shuffleDecks r s))\<lparr>currentCard := 0 + 1\<rparr> \<and> r1 = snd (shuffleDecks r s) \<and>
               c = cards (fst (shuffleDecks r s)) ! 0
          else s1 = s\<lparr>currentCard := currentCard s + 1\<rparr> \<and> r1 = r \<and>
               c = cards s ! currentCard s) \<and>
         c = cards s1 ! (currentCard s1 - 1) \<and>
         currentCard s1 - 1 < length (cards s1) \<and>
         1 \<le> currentCard s1 \<and> currentCard s1 \<le> 237 \<and>
         b \<noteq> NoMoreCards \<and>
         NoMoreCards \<notin> set (fst (drawMany n r s))"
proof (cases "237 \<le> currentCard s")
  case True
  then have "drawCardFromShoe r s =
     (Reshuffled, cards (fst (shuffleDecks r s)) ! 0,
      (fst (shuffleDecks r s))\<lparr>currentCard := 1\<rparr>, snd (shuffleDecks r s))"
    by (rule drawCardFromShoe_reshuffle)
  with assms(3) have
    "b = Reshuffled" "c = cards (fst (shuffleDecks r s)) ! 0"
    "s1 = (fst (shuffleDecks r s))\<lparr>currentCard := 1\<rparr>" "r1 = snd (shuffleDecks r s)"
    by simp_all
  with True assms(1) show ?thesis
    by (simp add: shuffleDecks_length drawMany_branches)
next
  case False
  then have "drawCardFromShoe r s =
     (NextCard, cards s ! currentCard s, s\<lparr>currentCard := currentCard s + 1\<rparr>, r)"
    by (simp add: drawCardFromShoe_next)
  with assms(3) have
    "b = NextCard" "c = cards s ! currentCard s"
    "s1 = s\<lparr>currentCard := currentCard s + 1\<rparr>" "r1 = r"
    by simp_all
  with False assms(1) show ?thesis
    by (simp add: drawMany_branches)
qed


theorem drawCardFromShoe_never_exhausted_witness:
  "length (cards (fst (newShoe identityRng))) = DECK_SIZE * NUMBER_OF_DECKS \<and>
   currentCard (fst (newShoe identityRng)) \<le> DECK_SIZE * NUMBER_OF_DECKS \<and>
   fst (drawCardFromShoe (snd (newShoe identityRng)) (fst (newShoe identityRng))) \<noteq> NoMoreCards \<and>
   currentCard (fst (snd (snd (drawCardFromShoe (snd (newShoe identityRng)) (fst (newShoe identityRng)))))) = 1 \<and>
   NoMoreCards \<notin> set (fst (drawMany 1000 (snd (newShoe identityRng)) (fst (newShoe identityRng))))"
proof -
  have len: "length (cards (fst (newShoe identityRng))) = DECK_SIZE * NUMBER_OF_DECKS"
    by (simp add: newShoe_length)
  have cur: "currentCard (fst (newShoe identityRng)) \<le> DECK_SIZE * NUMBER_OF_DECKS"
    by (simp add: newShoe_currentCard)
  have eq: "drawCardFromShoe (snd (newShoe identityRng)) (fst (newShoe identityRng)) =
      (fst (drawCardFromShoe (snd (newShoe identityRng)) (fst (newShoe identityRng))),
       fst (snd (drawCardFromShoe (snd (newShoe identityRng)) (fst (newShoe identityRng)))),
       fst (snd (snd (drawCardFromShoe (snd (newShoe identityRng)) (fst (newShoe identityRng))))),
       snd (snd (snd (drawCardFromShoe (snd (newShoe identityRng)) (fst (newShoe identityRng))))))"
    by simp
  show ?thesis
    using len cur drawCardFromShoe_never_exhausted [OF len cur eq, of 1000]
    by (simp add: newShoe_currentCard)
qed

text \<open>
  C8, as amended. \<^verbatim>\<open>shuffleDecks\<close> leaves the draw cursor as it was. The cursor is 0 after a
  shuffle because each caller sets it: the constructor before it shuffles, \<^verbatim>\<open>collectCards\<close>
  before it shuffles, and \<^verbatim>\<open>drawCardFromShoe\<close> after its reshuffle (it then returns the card at
  index 0, which leaves the cursor at 1).
\<close>

theorem shuffleDecks_keeps_cursor:
  "currentCard (fst (shuffleDecks r s)) = currentCard s \<and>
   currentCard (fst (newShoe r)) = 0 \<and>
   currentCard (fst (snd (collectCards hands s r))) = 0 \<and>
   currentCard (fst (snd (snd (drawCardFromShoe r (s\<lparr>currentCard := 237 + k\<rparr>))))) = 1"
  by (simp add: shuffleDecks_currentCard newShoe_currentCard collectCards_currentCard
      drawCardFromShoe_reshuffle)

text \<open>
  The claim as stated fails: a shoe from which five cards have been drawn has its cursor at
  5 before \<^verbatim>\<open>shuffleDecks\<close> and at 5 after it.
\<close>

theorem shuffleDecks_cursor_counterexample:
  "currentCard shoeAfterFiveDraws = 5 \<and>
   currentCard (fst (shuffleDecks identityRng shoeAfterFiveDraws)) \<noteq> 0"
proof -
  have "currentCard shoeAfterFiveDraws = 5"
    unfolding shoeAfterFiveDraws_def
    by (simp add: eval_nat_numeral drawCardFromShoe_next newShoe_currentCard split: prod.split)
  then show ?thesis
    by (simp add: shuffleDecks_currentCard)
qed

text \<open>
  C9. For every shoe (an array of 312 cards) and every sequence of \<^verbatim>\<open>rand()\<close> results,
  the cards after \<^verbatim>\<open>shuffleDecks\<close> are the cards before it, as multisets.
\<close>

theorem shuffleDecks_permutes:
  assumes "length (cards s) = DECK_SIZE * NUMBER_OF_DECKS"
  shows "mset (cards (fst (shuffleDecks r s))) = mset (cards s)"
  using assms by (rule shuffleDecks_mset)

theorem shuffleDecks_permutes_witness:
  "length (cards (fst (newShoe swapFirstTwoRng))) = DECK_SIZE * NUMBER_OF_DECKS \<and>
   mset (cards (fst (shuffleDecks (snd (newShoe swapFirstTwoRng)) (fst (newShoe swapFirstTwoRng))))) =
     mset (cards (fst (newShoe swapFirstTwoRng)))"
proof -
  have len: "length (cards (fst (newShoe swapFirstTwoRng))) = DECK_SIZE * NUMBER_OF_DECKS"
    by (simp add: newShoe_length)
  show ?thesis
    using len shuffleDecks_permutes [OF len, of "snd (newShoe swapFirstTwoRng)"]
    by simp
qed

section \<open>Claims about the round\<close>

text \<open>
  C1. The claim: over the blackjack check and the settlement together, each player gets
  exactly one of wins, losses and ties incremented, by exactly 1. In the first round on a new
  shoe whose shuffle swapped the first two cards, with one player, the player is dealt K, Q and
  the dealer A, J. \<^verbatim>\<open>checkBlackjack\<close> counts the player's loss (the losses are [1] when the
  turns are over, and the round ended early), and \<^verbatim>\<open>determineWinner\<close>, through
  \<^verbatim>\<open>compareHands\<close>, counts it again: after one round the player has 2 losses. In the round
  with two players that deals A, J to the first, K, T to the second and Q, A to the dealer,
  where the second player stands, the first player ends with 2 ties and the second with 2
  losses.
\<close>

theorem dealer_natural_counts_loss_twice:
  "isBlackjack aceJackDealerHand \<and> \<not> isBlackjack kingQueenHand \<and>
   map_option (fst \<circ> snd)
     (playRoundTurns [] (fst (newShoe swapFirstTwoRng)) (snd (newShoe swapFirstTwoRng)) 1 (newGameStats 1)) =
     Some [kingQueenHand, aceJackDealerHand] \<and>
   map_option (playerLosses \<circ> (snd \<circ> snd \<circ> snd \<circ> snd))
     (playRoundTurns [] (fst (newShoe swapFirstTwoRng)) (snd (newShoe swapFirstTwoRng)) 1 (newGameStats 1)) =
     Some [1] \<and>
   map_option (playerWins \<circ> (snd \<circ> snd \<circ> snd))
     (playRound [] (fst (newShoe swapFirstTwoRng)) (snd (newShoe swapFirstTwoRng)) 1 (newGameStats 1)) =
     Some [0] \<and>
   map_option (playerLosses \<circ> (snd \<circ> snd \<circ> snd))
     (playRound [] (fst (newShoe swapFirstTwoRng)) (snd (newShoe swapFirstTwoRng)) 1 (newGameStats 1)) =
     Some [2] \<and>
   map_option (playerTies \<circ> (snd \<circ> snd \<circ> snd))
     (playRound [] (fst (newShoe swapFirstTwoRng)) (snd (newShoe swapFirstTwoRng)) 1 (newGameStats 1)) =
     Some [0] \<and>
   map_option (totalRounds \<circ> (snd \<circ> snd \<circ> snd))
     (playRound [] (fst (newShoe swapFirstTwoRng)) (snd (newShoe swapFirstTwoRng)) 1 (newGameStats 1)) =
     Some 1 \<and>
   map_option (playerWins \<circ> (snd \<circ> snd \<circ> snd))
     (playRound [Stand] (fst (newShoe twoNaturalsRng)) (snd (newShoe twoNaturalsRng)) 2 (newGameStats 2)) =
     Some [0, 0] \<and>
   map_option (playerLosses \<circ> (snd \<circ> snd \<circ> snd))
     (playRound [Stand] (fst (newShoe twoNaturalsRng)) (snd (newShoe twoNaturalsRng)) 2 (newGameStats 2)) =
     Some [0, 2] \<and>
   map_option (playerTies \<circ> (snd \<circ> snd \<circ> snd))
     (playRound [Stand] (fst (newShoe twoNaturalsRng)) (snd (newShoe twoNaturalsRng)) 2 (newGameStats 2)) =
     Some [2, 0]"
proof -
  have "isBlackjack aceJackDealerHand" "\<not> isBlackjack kingQueenHand"
    by code_simp+
  then show ?thesis
    by (simp add: swapFirstTwo_turns playRound_Some [OF swapFirstTwo_turns] swapFirstTwo_stats
        playRound_Some [OF twoNaturals_stand] twoNaturals_stats del: One_nat_def)
qed




text \<open>
  C3, as amended. At the end of every round \<^verbatim>\<open>determineWinner\<close> increments \<open>totalRounds\<close> by
  1, and \<^verbatim>\<open>collectCards\<close> sets every hand's \<open>numCards\<close> to 0, sets the shoe's cursor to 0 and
  reshuffles: the shoe it leaves is the result of \<^verbatim>\<open>shuffleDecks\<close> on the shoe with the cursor
  at 0, which holds the same cards in a new order. So whenever \<^verbatim>\<open>playRound\<close> returns,
  \<open>totalRounds\<close> is one more than before, the cursor of the shoe is 0, and the shoe is the
  reshuffle of the shoe the turns left: the position in the shoe does not persist from one
  round to the next.
\<close>

theorem round_end_resets_cursor:
  "totalRounds (determineWinner hands stats n) = totalRounds stats + 1 \<and>
   map numCards (fst (collectCards hands deck r)) = replicate (length hands) 0 \<and>
   currentCard (fst (snd (collectCards hands deck r))) = 0 \<and>
   (playRound ds deck r n stats = Some (dsOut, deckOut, rOut, statsOut) \<longrightarrow>
      totalRounds statsOut = totalRounds stats + 1 \<and> currentCard deckOut = 0) \<and>
   fst (snd (collectCards hands deck r)) = fst (shuffleDecks r (deck\<lparr>currentCard := 0\<rparr>)) \<and>
   snd (snd (collectCards hands deck r)) = snd (shuffleDecks r (deck\<lparr>currentCard := 0\<rparr>)) \<and>
   (length (cards deck) = DECK_SIZE * NUMBER_OF_DECKS \<longrightarrow>
      mset (cards (fst (snd (collectCards hands deck r)))) = mset (cards deck)) \<and>
   (playRoundTurns ds deck r n stats = Some (dsT, handsT, deckT, rT, statsT) \<longrightarrow>
      playRound ds deck r n stats =
        Some (dsT, fst (shuffleDecks rT (deckT\<lparr>currentCard := 0\<rparr>)),
              snd (shuffleDecks rT (deckT\<lparr>currentCard := 0\<rparr>)),
              determineWinner handsT statsT n))"
proof -
  have counts: "map numCards (fst (collectCards hands deck r)) = replicate (length hands) 0"
    by (simp add: collectCards_hands map_replicate_const o_def)
  have same: "mset (cards (fst (snd (collectCards hands deck r)))) = mset (cards deck)"
    if "length (cards deck) = DECK_SIZE * NUMBER_OF_DECKS"
  proof -
    have "length (cards (deck\<lparr>currentCard := 0\<rparr>)) = DECK_SIZE * NUMBER_OF_DECKS"
      using that by simp
    then have "mset (cards (fst (shuffleDecks r (deck\<lparr>currentCard := 0\<rparr>)))) =
        mset (cards (deck\<lparr>currentCard := 0\<rparr>))"
      by (rule shuffleDecks_mset)
    then show ?thesis
      by (simp add: collectCards_deck)
  qed
  have run: "playRound ds deck r n stats =
        Some (dsT, fst (shuffleDecks rT (deckT\<lparr>currentCard := 0\<rparr>)),
              snd (shuffleDecks rT (deckT\<lparr>currentCard := 0\<rparr>)),
              determineWinner handsT statsT n)"
    if "playRoundTurns ds deck r n stats = Some (dsT, handsT, deckT, rT, statsT)"
    using playRound_Some [OF that] by (simp add: collectCards_deck)
  have old: "totalRounds statsOut = totalRounds stats + 1 \<and> currentCard deckOut = 0"
    if "playRound ds deck r n stats = Some (dsOut, deckOut, rOut, statsOut)"
    using that by (rule playRound_totalRounds)
  show ?thesis
    using counts same run old
    by (simp add: determineWinner_totalRounds collectCards_currentCard collectCards_deck
        shuffleDecks_currentCard)
qed

theorem round_end_resets_cursor_witness:
  "playRound [] (fst (newShoe identityRng)) (snd (newShoe identityRng)) 1 (newGameStats 1) =
     Some ([],
       fst (snd (collectCards [aceQueenHand, kingJackDealerHand]
         ((fst (newShoe identityRng))\<lparr>currentCard := 4\<rparr>) (snd (newShoe identityRng)))),
       snd (snd (collectCards [aceQueenHand, kingJackDealerHand]
         ((fst (newShoe identityRng))\<lparr>currentCard := 4\<rparr>) (snd (newShoe identityRng)))),
       determineWinner [aceQueenHand, kingJackDealerHand]
         (checkBlackjack [aceQueenHand, kingJackDealerHand] (newGameStats 1) 1) 1) \<and>
   totalRounds (determineWinner [aceQueenHand, kingJackDealerHand]
         (checkBlackjack [aceQueenHand, kingJackDealerHand] (newGameStats 1) 1) 1) =
     totalRounds (newGameStats 1) + 1 \<and>
   currentCard (fst (snd (collectCards [aceQueenHand, kingJackDealerHand]
         ((fst (newShoe identityRng))\<lparr>currentCard := 4\<rparr>) (snd (newShoe identityRng))))) = 0 \<and>
   length (cards (fst (newShoe identityRng))) = DECK_SIZE * NUMBER_OF_DECKS \<and>
   mset (cards (fst (snd (collectCards [aceQueenHand, kingJackDealerHand]
         (fst (newShoe identityRng)) (snd (newShoe identityRng)))))) =
     mset (cards (fst (newShoe identityRng))) \<and>
   playRoundTurns [] (fst (newShoe identityRng)) (snd (newShoe identityRng)) 1 (newGameStats 1) =
     Some ([], [aceQueenHand, kingJackDealerHand], (fst (newShoe identityRng))\<lparr>currentCard := 4\<rparr>,
           snd (newShoe identityRng),
           checkBlackjack [aceQueenHand, kingJackDealerHand] (newGameStats 1) 1) \<and>
   playRound [] (fst (newShoe identityRng)) (snd (newShoe identityRng)) 1 (newGameStats 1) =
     Some ([],
       fst (shuffleDecks (snd (newShoe identityRng))
         ((fst (newShoe identityRng))\<lparr>currentCard := 4\<rparr>\<lparr>currentCard := 0\<rparr>)),
       snd (shuffleDecks (snd (newShoe identityRng))
         ((fst (newShoe identityRng))\<lparr>currentCard := 4\<rparr>\<lparr>currentCard := 0\<rparr>)),
       determineWinner [aceQueenHand, kingJackDealerHand]
         (checkBlackjack [aceQueenHand, kingJackDealerHand] (newGameStats 1) 1) 1)"
proof -
  note turns = identity_turns [of "[]" "snd (newShoe identityRng)"]
  note run = playRound_Some [OF identity_turns, of "[]" "snd (newShoe identityRng)"]
  have len: "length (cards (fst (newShoe identityRng))) = DECK_SIZE * NUMBER_OF_DECKS"
    by (simp add: newShoe_length)
  note inst = round_end_resets_cursor [where ds = "[]" and stats = "newGameStats 1" and n = 1
      and hands = "[aceQueenHand, kingJackDealerHand]"
      and deck = "fst (newShoe identityRng)" and r = "snd (newShoe identityRng)" and dsOut = "[]"
      and deckOut = "fst (snd (collectCards [aceQueenHand, kingJackDealerHand]
         ((fst (newShoe identityRng))\<lparr>currentCard := 4\<rparr>) (snd (newShoe identityRng))))"
      and rOut = "snd (snd (collectCards [aceQueenHand, kingJackDealerHand]
         ((fst (newShoe identityRng))\<lparr>currentCard := 4\<rparr>) (snd (newShoe identityRng))))"
      and statsOut = "determineWinner [aceQueenHand, kingJackDealerHand]
         (checkBlackjack [aceQueenHand, kingJackDealerHand] (newGameStats 1) 1) 1"
      and dsT = "[]" and handsT = "[aceQueenHand, kingJackDealerHand]"
      and deckT = "(fst (newShoe identityRng))\<lparr>currentCard := 4\<rparr>"
      and rT = "snd (newShoe identityRng)"
      and statsT = "checkBlackjack [aceQueenHand, kingJackDealerHand] (newGameStats 1) 1"]
  have reshuffled: "playRound [] (fst (newShoe identityRng)) (snd (newShoe identityRng)) 1 (newGameStats 1) =
     Some ([],
       fst (shuffleDecks (snd (newShoe identityRng))
         ((fst (newShoe identityRng))\<lparr>currentCard := 4\<rparr>\<lparr>currentCard := 0\<rparr>)),
       snd (shuffleDecks (snd (newShoe identityRng))
         ((fst (newShoe identityRng))\<lparr>currentCard := 4\<rparr>\<lparr>currentCard := 0\<rparr>)),
       determineWinner [aceQueenHand, kingJackDealerHand]
         (checkBlackjack [aceQueenHand, kingJackDealerHand] (newGameStats 1) 1) 1)"
    using inst turns by blast
  have perm: "mset (cards (fst (snd (collectCards [aceQueenHand, kingJackDealerHand]
         (fst (newShoe identityRng)) (snd (newShoe identityRng)))))) =
     mset (cards (fst (newShoe identityRng)))"
    using inst len by blast
  have counted: "totalRounds (determineWinner [aceQueenHand, kingJackDealerHand]
         (checkBlackjack [aceQueenHand, kingJackDealerHand] (newGameStats 1) 1) 1) =
     totalRounds (newGameStats 1) + 1 \<and>
   currentCard (fst (snd (collectCards [aceQueenHand, kingJackDealerHand]
         ((fst (newShoe identityRng))\<lparr>currentCard := 4\<rparr>) (snd (newShoe identityRng))))) = 0"
    using inst run by blast
  show ?thesis
    using run counted len perm turns reshuffled by blast
qed

text \<open>
  The claim as stated fails: in the first round on a new shoe with one player, the cursor is
  at 4 when the turns are over, and at 0 when \<^verbatim>\<open>playRound\<close> returns.
\<close>

theorem cursor_reset_counterexample:
  "map_option (currentCard \<circ> (fst \<circ> snd \<circ> snd))
     (playRoundTurns [] (fst (newShoe identityRng)) (snd (newShoe identityRng)) 1 (newGameStats 1)) = Some 4 \<and>
   map_option (currentCard \<circ> (fst \<circ> snd))
     (playRound [] (fst (newShoe identityRng)) (snd (newShoe identityRng)) 1 (newGameStats 1)) = Some 0"
  by (simp add: identity_turns playRound_Some [OF identity_turns] collectCards_currentCard
      del: One_nat_def)

text \<open>
  C6. The claim: from every reachable state the dealer's loop terminates, with a score of at
  least 17. In the first round on a new shoe that starts A, 2, 9, 2, 2, 2, 2, 2, A, A, A, A,
  with one player who stands on A, 9, the dealer holds 2, 2 and draws 2, 2, 2, 2, A, A, A, A:
  ten cards that score 16. \<^verbatim>\<open>addCardToHand\<close> drops every further card, so the score stays
  below 17 and the loop, and with it \<^verbatim>\<open>playRound\<close>, never returns.
\<close>

theorem dealer_loop_never_exits:
  "fst (dealCards (initializeGameHands 1) (fst (newShoe lowCardsRng)) (snd (newShoe lowCardsRng))) =
     [aceNineHand, twoTwoDealerHand] \<and>
   numCards (fold addCardToHand nextEightCards twoTwoDealerHand) = 10 \<and>
   evaluateHandScore (fold addCardToHand nextEightCards twoTwoDealerHand) = 16 \<and>
   dealerTurn twoTwoDealerHand ((fst (newShoe lowCardsRng))\<lparr>currentCard := 4\<rparr>)
     (snd (newShoe lowCardsRng)) = None \<and>
   playRoundTurns [Stand] (fst (newShoe lowCardsRng)) (snd (newShoe lowCardsRng)) 1 (newGameStats 1) = None \<and>
   playRound [Stand] (fst (newShoe lowCardsRng)) (snd (newShoe lowCardsRng)) 1 (newGameStats 1) = None"
proof -
  have "numCards (fold addCardToHand nextEightCards twoTwoDealerHand) = 10"
    "evaluateHandScore (fold addCardToHand nextEightCards twoTwoDealerHand) = 16"
    by code_simp+
  then show ?thesis
    by (simp add: lowCards_deal lowCards_dealer lowCards_turns playRound_None del: One_nat_def)
qed

end
